theory Spec2Isabelle
  imports Main "HOL-Library.Signed_Division"
begin

section \<open>Core game types\<close>

text \<open>
  The simulation core of the console Snake game. Two source files carry it:
  \<^verbatim>\<open>snakeCycle.cpp\<close> (Windows console) and \<^verbatim>\<open>snake.cpp\<close> (the cross-platform
  variant). Both declare the same \<^verbatim>\<open>Position\<close>, \<^verbatim>\<open>Direction\<close>, \<^verbatim>\<open>Food\<close> and
  \<^verbatim>\<open>Snake\<close>; the types below are shared by the two embeddings.

  C++ \<^verbatim>\<open>int\<close> is modelled as \<open>int\<close>, division and remainder as the truncating
  \<open>sdiv\<close> and \<open>smod\<close>. Signed overflow is undefined behaviour in C++ and has no
  counterpart in the model: a statement about \<^verbatim>\<open>move\<close> on an arbitrary snake therefore
  assumes that the step stays between \<open>INT_MIN\<close> and \<open>INT_MAX\<close>. In a game no
  coordinate comes near that range: every cell of a reachable snake lies within one step
  of the 30 x 20 board (\<open>reachable_cells\<close>). \<^verbatim>\<open>updateGameSpeed\<close> stays in range for
  every score an \<^verbatim>\<open>int\<close> holds (\<open>updateGameSpeed_in_int_range\<close>).
\<close>

datatype Position = Position (pos_x: int) (pos_y: int)

datatype Direction = UP | DOWN | LEFT | RIGHT | STOP

text \<open>The range of a 32-bit \<^verbatim>\<open>int\<close>.\<close>

definition INT_MIN :: int where "INT_MIN = - 2147483648"

definition INT_MAX :: int where "INT_MAX = 2147483647"

text \<open>
  Two kinds of undefined behaviour of the source are error values of the model:
  \<^verbatim>\<open>body[0]\<close> on an empty vector and \<^verbatim>\<open>rand() % 0\<close>.
\<close>

datatype error = VectorIndexOutOfRange | DivisionByZero

text \<open>Console colours used by the food (\<^verbatim>\<open>enum ConsoleColor\<close>).\<close>

definition LIGHT_RED :: int where "LIGHT_RED = 12"
definition LIGHT_YELLOW :: int where "LIGHT_YELLOW = 14"

record Food =
  position :: Position
  symbol :: char
  color :: int
  foodValue :: int

record Snake =
  body :: "Position list"
  previousBody :: "Position list"
  direction :: Direction
  growing :: bool

record GameBoard =
  width :: int
  height :: int

section \<open>Snake (snakeCycle.cpp)\<close>

definition push_back :: "'a list \<Rightarrow> 'a \<Rightarrow> 'a list" where
  "push_back v a = v @ [a]"

definition Snake_ctor :: Snake where
  "Snake_ctor =
     (let b = push_back (push_back (push_back [] (Position 10 10)) (Position 9 10)) (Position 8 10)
      in \<lparr>body = b, previousBody = b, direction = STOP, growing = False\<rparr>)"

definition setDirection :: "Direction \<Rightarrow> Snake \<Rightarrow> Snake" where
  "setDirection dir s =
     (if (direction s = UP \<and> dir \<noteq> DOWN) \<or>
         (direction s = DOWN \<and> dir \<noteq> UP) \<or>
         (direction s = LEFT \<and> dir \<noteq> RIGHT) \<or>
         (direction s = RIGHT \<and> dir \<noteq> LEFT) \<or>
         direction s = STOP
      then s\<lparr>direction := dir\<rparr>
      else s)"

definition getDirection :: "Snake \<Rightarrow> Direction" where
  "getDirection s = direction s"

text \<open>
  \<^verbatim>\<open>move\<close>: the \<^verbatim>\<open>switch\<close> has no \<^verbatim>\<open>STOP\<close> case, which leaves the head as it is
  (that branch is never reached, since \<^verbatim>\<open>STOP\<close> returns first).
  \<^verbatim>\<open>insert(begin(), head)\<close> is \<open>#\<close> and \<^verbatim>\<open>pop_back\<close> is \<open>butlast\<close>.
  The increment and the decrement are those of \<open>int\<close>: the model says nothing of a step
  that overflows in C++.
\<close>

definition move :: "Snake \<Rightarrow> error + Snake" where
  "move s =
     (if direction s = STOP then Inr s
      else
        let s1 = s\<lparr>previousBody := body s\<rparr> in
        case body s1 of
          [] \<Rightarrow> Inl VectorIndexOutOfRange
        | h # _ \<Rightarrow>
            let head = (case direction s1 of
                          UP \<Rightarrow> Position (pos_x h) (pos_y h - 1)
                        | DOWN \<Rightarrow> Position (pos_x h) (pos_y h + 1)
                        | LEFT \<Rightarrow> Position (pos_x h - 1) (pos_y h)
                        | RIGHT \<Rightarrow> Position (pos_x h + 1) (pos_y h)
                        | STOP \<Rightarrow> h);
                s2 = s1\<lparr>body := head # body s1\<rparr>
            in if \<not> growing s2 then Inr (s2\<lparr>body := butlast (body s2)\<rparr>)
               else Inr (s2\<lparr>growing := False\<rparr>))"

definition grow :: "Snake \<Rightarrow> Snake" where
  "grow s = s\<lparr>growing := True\<rparr>"

definition getHead :: "Snake \<Rightarrow> Position" where
  "getHead s = (if body s = [] then Position 0 0 else body s ! 0)"

definition getTail :: "Snake \<Rightarrow> Position" where
  "getTail s = (if body s = [] then Position 0 0 else body s ! (length (body s) - 1))"

definition getBody :: "Snake \<Rightarrow> Position list" where
  "getBody s = body s"

text \<open>The \<^verbatim>\<open>for\<close> loop of \<^verbatim>\<open>checkSelfCollision\<close>, from index \<open>i\<close> on.\<close>

function checkSelfCollision_loop :: "Position \<Rightarrow> Position list \<Rightarrow> nat \<Rightarrow> bool" where
  "checkSelfCollision_loop head b i =
     (if i < length b
      then (if head = b ! i then True else checkSelfCollision_loop head b (i + 1))
      else False)"
  by pat_completeness auto
termination
  by (relation "measure (\<lambda>(head, b, i). length b - i)") auto

declare checkSelfCollision_loop.simps [simp del]

definition checkSelfCollision :: "Snake \<Rightarrow> bool" where
  "checkSelfCollision s =
     (if length (body s) \<le> 1 then False
      else checkSelfCollision_loop (body s ! 0) (body s) 1)"

definition getLength :: "Snake \<Rightarrow> int" where
  "getLength s = int (length (body s))"

definition reset :: "Snake \<Rightarrow> Snake" where
  "reset s =
     (let b = push_back (push_back (push_back [] (Position 10 10)) (Position 9 10)) (Position 8 10)
      in s\<lparr>body := b, previousBody := b, direction := STOP, growing := False\<rparr>)"

section \<open>GameBoard (snakeCycle.cpp)\<close>

text \<open>
  Only the dimensions of the board are modelled; its other fields are the memory of the
  renderer, which no function below reads.
\<close>

definition GameBoard_ctor :: "int \<Rightarrow> int \<Rightarrow> GameBoard" where
  "GameBoard_ctor w h = \<lparr>width = w, height = h\<rparr>"

definition isValidPosition :: "GameBoard \<Rightarrow> Position \<Rightarrow> bool" where
  "isValidPosition b pos =
     (pos_x pos \<ge> 0 \<and> pos_x pos < width b \<and> pos_y pos \<ge> 0 \<and> pos_y pos < height b)"

section \<open>Food (snakeCycle.cpp)\<close>

text \<open>
  \<^verbatim>\<open>rand()\<close> reads a global generator seeded once by \<^verbatim>\<open>srand(time(0))\<close>. The model
  takes the whole sequence of its results as a parameter \<open>rnd\<close> (the \<open>n\<close>-th call
  returns \<open>rnd n\<close>, a value that is never negative) and counts the calls made so far.
\<close>

definition Food_ctor :: Food where
  "Food_ctor = \<lparr>position = Position 0 0, symbol = CHR ''*'', color = LIGHT_RED, foodValue = 10\<rparr>"

text \<open>
  The \<^verbatim>\<open>do ... while\<close> loop of \<^verbatim>\<open>generateFood\<close>, entered with \<open>n\<close> calls of
  \<^verbatim>\<open>rand()\<close> made before. It may run forever: \<open>None\<close> is the loop that never leaves.
  \<^verbatim>\<open>std::find(...) != end()\<close> is membership in the body.
\<close>

partial_function (option) generateFood_loop ::
  "(nat \<Rightarrow> nat) \<Rightarrow> int \<Rightarrow> int \<Rightarrow> Position list \<Rightarrow> nat \<Rightarrow> (error + Position \<times> nat) option" where
  "generateFood_loop rnd w h snakeBody n =
     (if w = 0 then Some (Inl DivisionByZero)
      else if h = 0 then Some (Inl DivisionByZero)
      else if Position (int (rnd n) smod w) (int (rnd (n + 1)) smod h) \<in> set snakeBody
      then generateFood_loop rnd w h snakeBody (n + 2)
      else Some (Inr (Position (int (rnd n) smod w) (int (rnd (n + 1)) smod h), n + 2)))"

declare generateFood_loop.simps [code]

definition generateFood ::
  "(nat \<Rightarrow> nat) \<Rightarrow> int \<Rightarrow> int \<Rightarrow> Position list \<Rightarrow> Food \<times> nat \<Rightarrow> (error + Food \<times> nat) option" where
  "generateFood rnd w h snakeBody fn =
     (case generateFood_loop rnd w h snakeBody (snd fn) of
        None \<Rightarrow> None
      | Some (Inl e) \<Rightarrow> Some (Inl e)
      | Some (Inr (p, n)) \<Rightarrow>
          if int (rnd n) smod 10 = 0
          then Some (Inr ((fst fn)\<lparr>position := p, symbol := CHR ''$'',
                                   color := LIGHT_YELLOW, foodValue := 50\<rparr>, n + 1))
          else Some (Inr ((fst fn)\<lparr>position := p, symbol := CHR ''*'',
                                   color := LIGHT_RED, foodValue := 10\<rparr>, n + 1)))"

definition getPosition :: "Food \<Rightarrow> Position" where
  "getPosition f = position f"

definition getValue :: "Food \<Rightarrow> int" where
  "getValue f = foodValue f"

section \<open>Game (snakeCycle.cpp)\<close>

text \<open>
  \<open>randCalls\<close> is not a member of the class: it is the state of the C library's
  generator, the number of \<^verbatim>\<open>rand()\<close> calls made so far.
\<close>

record Game =
  snake :: Snake
  food :: Food
  board :: GameBoard
  score :: int
  highScore :: int
  gameOver :: bool
  gameRunning :: bool
  paused :: bool
  gameSpeed :: int
  currentLevel :: string
  oldFoodPos :: Position
  foodEaten :: bool
  randCalls :: nat

text \<open>\<^verbatim>\<open>std::to_string(int)\<close>: the decimal digits, with a minus sign in front when negative.\<close>

fun to_string_nat :: "nat \<Rightarrow> string" where
  "to_string_nat n =
     (if n < 10 then [''0123456789'' ! n]
      else to_string_nat (n div 10) @ [''0123456789'' ! (n mod 10)])"

definition to_string :: "int \<Rightarrow> string" where
  "to_string i = (if i < 0 then CHR ''-'' # to_string_nat (nat (- i)) else to_string_nat (nat i))"

definition loadHighScore :: "Game \<Rightarrow> Game" where
  "loadHighScore g = g\<lparr>highScore := 0\<rparr>"

definition saveHighScore :: "Game \<Rightarrow> Game" where
  "saveHighScore g = (if score g > highScore g then g\<lparr>highScore := score g\<rparr> else g)"

definition updateGameSpeed :: "Game \<Rightarrow> Game" where
  "updateGameSpeed g =
     (let level = score g sdiv 100 + 1
      in g\<lparr>gameSpeed := max 50 (200 - (level * 15)),
            currentLevel := ''Level '' @ to_string level\<rparr>)"

text \<open>
  The constructor: the members in their order of declaration (the board with its default
  size 30 x 20), then the first food.
\<close>

definition Game_ctor :: "(nat \<Rightarrow> nat) \<Rightarrow> (error + Game) option" where
  "Game_ctor rnd =
     (let g = loadHighScore
                \<lparr>snake = Snake_ctor, food = Food_ctor, board = GameBoard_ctor 30 20,
                 score = 0, highScore = 0, gameOver = False, gameRunning = True,
                 paused = False, gameSpeed = 150, currentLevel = ''Level 1'',
                 oldFoodPos = Position 0 0, foodEaten = False, randCalls = 0\<rparr>
      in case generateFood rnd (width (board g)) (height (board g)) (getBody (snake g))
                (food g, randCalls g) of
           None \<Rightarrow> None
         | Some (Inl e) \<Rightarrow> Some (Inl e)
         | Some (Inr (f, n)) \<Rightarrow>
             Some (Inr (g\<lparr>food := f, randCalls := n, oldFoodPos := getPosition f\<rparr>)))"

text \<open>\<^verbatim>\<open>tolower\<close> in the C locale, on key codes.\<close>

definition tolower :: "int \<Rightarrow> int" where
  "tolower c = (if 65 \<le> c \<and> c \<le> 90 then c + 32 else c)"

text \<open>
  \<^verbatim>\<open>processInput\<close>: \<open>key\<close> is \<open>None\<close> when \<^verbatim>\<open>_kbhit()\<close> is false and the code that
  \<^verbatim>\<open>_getch()\<close> returns otherwise; \<open>key2\<close> is what the second \<^verbatim>\<open>_getch()\<close> returns
  after an extended-key prefix. Key codes: w 119, s 115, a 97, d 100, p 112, q 113.
\<close>

definition processInput :: "int option \<Rightarrow> int \<Rightarrow> Game \<Rightarrow> Game" where
  "processInput key key2 g =
     (case key of
        None \<Rightarrow> g
      | Some k \<Rightarrow>
          if k = 0 \<or> k = 224 then
            (if key2 = 72 then g\<lparr>snake := setDirection UP (snake g)\<rparr>
             else if key2 = 80 then g\<lparr>snake := setDirection DOWN (snake g)\<rparr>
             else if key2 = 75 then g\<lparr>snake := setDirection LEFT (snake g)\<rparr>
             else if key2 = 77 then g\<lparr>snake := setDirection RIGHT (snake g)\<rparr>
             else g)
          else
            (let c = tolower k in
             if c = 119 then g\<lparr>snake := setDirection UP (snake g)\<rparr>
             else if c = 115 then g\<lparr>snake := setDirection DOWN (snake g)\<rparr>
             else if c = 97 then g\<lparr>snake := setDirection LEFT (snake g)\<rparr>
             else if c = 100 then g\<lparr>snake := setDirection RIGHT (snake g)\<rparr>
             else if c = 112 then g\<lparr>paused := \<not> paused g\<rparr>
             else if c = 113 then g\<lparr>gameRunning := False\<rparr>
             else g))"

definition update :: "(nat \<Rightarrow> nat) \<Rightarrow> Game \<Rightarrow> (error + Game) option" where
  "update rnd g =
     (if gameOver g \<or> paused g then Some (Inr g)
      else
        let g1 = g\<lparr>foodEaten := False\<rparr> in
        case move (snake g1) of
          Inl e \<Rightarrow> Some (Inl e)
        | Inr s1 \<Rightarrow>
            let g2 = updateGameSpeed (g1\<lparr>snake := s1\<rparr>);
                head = getHead (snake g2)
            in if \<not> isValidPosition (board g2) head then Some (Inr (g2\<lparr>gameOver := True\<rparr>))
               else if checkSelfCollision (snake g2) then Some (Inr (g2\<lparr>gameOver := True\<rparr>))
               else if head = getPosition (food g2) then
                 (let g3 = g2\<lparr>score := score g2 + getValue (food g2)\<rparr>;
                      g4 = g3\<lparr>snake := grow (snake g3)\<rparr>;
                      g5 = g4\<lparr>foodEaten := True\<rparr>;
                      g6 = g5\<lparr>oldFoodPos := getPosition (food g5)\<rparr>
                  in case generateFood rnd (width (board g6)) (height (board g6))
                            (getBody (snake g6)) (food g6, randCalls g6) of
                       None \<Rightarrow> None
                     | Some (Inl e) \<Rightarrow> Some (Inl e)
                     | Some (Inr (f, n)) \<Rightarrow> Some (Inr (g6\<lparr>food := f, randCalls := n\<rparr>)))
               else Some (Inr g2))"

definition restart :: "(nat \<Rightarrow> nat) \<Rightarrow> Game \<Rightarrow> (error + Game) option" where
  "restart rnd g =
     (let g1 = g\<lparr>snake := reset (snake g)\<rparr>;
          g2 = g1\<lparr>score := 0, gameOver := False, paused := False,
                  gameSpeed := 150, currentLevel := ''Level 1''\<rparr>
      in case generateFood rnd (width (board g2)) (height (board g2)) (getBody (snake g2))
                (food g2, randCalls g2) of
           None \<Rightarrow> None
         | Some (Inl e) \<Rightarrow> Some (Inl e)
         | Some (Inr (f, n)) \<Rightarrow> Some (Inr (g2\<lparr>food := f, randCalls := n\<rparr>)))"

text \<open>
  \<^verbatim>\<open>handleGameOver\<close>: \<open>choice\<close> is the key that the blocking \<^verbatim>\<open>_getch()\<close> returns
  (r is 114, q is 113).
\<close>

definition handleGameOver :: "(nat \<Rightarrow> nat) \<Rightarrow> int \<Rightarrow> Game \<Rightarrow> (error + Game) option" where
  "handleGameOver rnd choice g =
     (if \<not> gameOver g then Some (Inr g)
      else
        let g1 = saveHighScore g; c = tolower choice in
        if c = 114 then restart rnd g1
        else if c = 113 then Some (Inr (g1\<lparr>gameRunning := False\<rparr>))
        else Some (Inr g1))"

text \<open>
  The states that \<^verbatim>\<open>run\<close> can reach with the generator sequence \<open>rnd\<close>: the constructed
  game, then any number of \<^verbatim>\<open>processInput\<close>, \<^verbatim>\<open>update\<close> and \<^verbatim>\<open>handleGameOver\<close>
  calls, in any order and with any keys (the loop of \<^verbatim>\<open>run\<close> makes them in one fixed
  order, which is one of these).
\<close>

inductive reachable :: "(nat \<Rightarrow> nat) \<Rightarrow> Game \<Rightarrow> bool" for rnd :: "nat \<Rightarrow> nat" where
  start: "Game_ctor rnd = Some (Inr g) \<Longrightarrow> reachable rnd g"
| input: "reachable rnd g \<Longrightarrow> reachable rnd (processInput key key2 g)"
| tick: "reachable rnd g \<Longrightarrow> update rnd g = Some (Inr g') \<Longrightarrow> reachable rnd g'"
| over: "reachable rnd g \<Longrightarrow> handleGameOver rnd choice g = Some (Inr g') \<Longrightarrow> reachable rnd g'"

section \<open>The cross-platform variant (snake.cpp)\<close>

text \<open>
  The second source file declares the same classes again. Its functions of the simulation
  core are embedded here one by one from its own text, under the source's names with the
  suffix \<open>_xp\<close>. Its \<^verbatim>\<open>GameBoard\<close> has one more field of renderer memory
  (\<^verbatim>\<open>wasPaused\<close>), which the functions below do not read either.
\<close>

definition emplace_back :: "Position list \<Rightarrow> int \<Rightarrow> int \<Rightarrow> Position list" where
  "emplace_back v a b = v @ [Position a b]"

definition setDirection_xp :: "Direction \<Rightarrow> Snake \<Rightarrow> Snake" where
  "setDirection_xp dir s =
     (if (direction s = UP \<and> dir \<noteq> DOWN) \<or>
         (direction s = DOWN \<and> dir \<noteq> UP) \<or>
         (direction s = LEFT \<and> dir \<noteq> RIGHT) \<or>
         (direction s = RIGHT \<and> dir \<noteq> LEFT) \<or>
         direction s = STOP
      then s\<lparr>direction := dir\<rparr>
      else s)"

text \<open>Here the \<^verbatim>\<open>switch\<close> of \<^verbatim>\<open>move\<close> has a \<^verbatim>\<open>default: break;\<close> for \<^verbatim>\<open>STOP\<close>.\<close>

definition move_xp :: "Snake \<Rightarrow> error + Snake" where
  "move_xp s =
     (if direction s = STOP then Inr s
      else
        let s1 = s\<lparr>previousBody := body s\<rparr> in
        case body s1 of
          [] \<Rightarrow> Inl VectorIndexOutOfRange
        | h # _ \<Rightarrow>
            let head = (case direction s1 of
                          UP \<Rightarrow> Position (pos_x h) (pos_y h - 1)
                        | DOWN \<Rightarrow> Position (pos_x h) (pos_y h + 1)
                        | LEFT \<Rightarrow> Position (pos_x h - 1) (pos_y h)
                        | RIGHT \<Rightarrow> Position (pos_x h + 1) (pos_y h)
                        | _ \<Rightarrow> h);
                s2 = s1\<lparr>body := head # body s1\<rparr>
            in if \<not> growing s2 then Inr (s2\<lparr>body := butlast (body s2)\<rparr>)
               else Inr (s2\<lparr>growing := False\<rparr>))"

definition grow_xp :: "Snake \<Rightarrow> Snake" where
  "grow_xp s = s\<lparr>growing := True\<rparr>"

definition getHead_xp :: "Snake \<Rightarrow> Position" where
  "getHead_xp s = (if body s = [] then Position 0 0 else body s ! 0)"

definition getBody_xp :: "Snake \<Rightarrow> Position list" where
  "getBody_xp s = body s"

function checkSelfCollision_loop_xp :: "Position \<Rightarrow> Position list \<Rightarrow> nat \<Rightarrow> bool" where
  "checkSelfCollision_loop_xp head b i =
     (if i < length b
      then (if head = b ! i then True else checkSelfCollision_loop_xp head b (i + 1))
      else False)"
  by pat_completeness auto
termination
  by (relation "measure (\<lambda>(head, b, i). length b - i)") auto

declare checkSelfCollision_loop_xp.simps [simp del]

definition checkSelfCollision_xp :: "Snake \<Rightarrow> bool" where
  "checkSelfCollision_xp s =
     (if length (body s) \<le> 1 then False
      else checkSelfCollision_loop_xp (body s ! 0) (body s) 1)"

definition reset_xp :: "Snake \<Rightarrow> Snake" where
  "reset_xp s =
     (let b = emplace_back (emplace_back (emplace_back [] 10 10) 9 10) 8 10
      in s\<lparr>body := b, previousBody := b, direction := STOP, growing := False\<rparr>)"

partial_function (option) generateFood_loop_xp ::
  "(nat \<Rightarrow> nat) \<Rightarrow> int \<Rightarrow> int \<Rightarrow> Position list \<Rightarrow> nat \<Rightarrow> (error + Position \<times> nat) option" where
  "generateFood_loop_xp rnd w h snakeBody n =
     (if w = 0 then Some (Inl DivisionByZero)
      else if h = 0 then Some (Inl DivisionByZero)
      else if Position (int (rnd n) smod w) (int (rnd (n + 1)) smod h) \<in> set snakeBody
      then generateFood_loop_xp rnd w h snakeBody (n + 2)
      else Some (Inr (Position (int (rnd n) smod w) (int (rnd (n + 1)) smod h), n + 2)))"

declare generateFood_loop_xp.simps [code]

definition generateFood_xp ::
  "(nat \<Rightarrow> nat) \<Rightarrow> int \<Rightarrow> int \<Rightarrow> Position list \<Rightarrow> Food \<times> nat \<Rightarrow> (error + Food \<times> nat) option" where
  "generateFood_xp rnd w h snakeBody fn =
     (case generateFood_loop_xp rnd w h snakeBody (snd fn) of
        None \<Rightarrow> None
      | Some (Inl e) \<Rightarrow> Some (Inl e)
      | Some (Inr (p, n)) \<Rightarrow>
          if int (rnd n) smod 10 = 0
          then Some (Inr ((fst fn)\<lparr>position := p, symbol := CHR ''$'',
                                   color := LIGHT_YELLOW, foodValue := 50\<rparr>, n + 1))
          else Some (Inr ((fst fn)\<lparr>position := p, symbol := CHR ''*'',
                                   color := LIGHT_RED, foodValue := 10\<rparr>, n + 1)))"

definition getPosition_xp :: "Food \<Rightarrow> Position" where
  "getPosition_xp f = position f"

definition getValue_xp :: "Food \<Rightarrow> int" where
  "getValue_xp f = foodValue f"

definition isValidPosition_xp :: "GameBoard \<Rightarrow> Position \<Rightarrow> bool" where
  "isValidPosition_xp b pos =
     (pos_x pos \<ge> 0 \<and> pos_x pos < width b \<and> pos_y pos \<ge> 0 \<and> pos_y pos < height b)"

definition updateGameSpeed_xp :: "Game \<Rightarrow> Game" where
  "updateGameSpeed_xp g =
     (let level = score g sdiv 100 + 1
      in g\<lparr>gameSpeed := max 50 (200 - (level * 15)),
            currentLevel := ''Level '' @ to_string level\<rparr>)"

definition update_xp :: "(nat \<Rightarrow> nat) \<Rightarrow> Game \<Rightarrow> (error + Game) option" where
  "update_xp rnd g =
     (if gameOver g \<or> paused g then Some (Inr g)
      else
        let g1 = g\<lparr>foodEaten := False\<rparr> in
        case move_xp (snake g1) of
          Inl e \<Rightarrow> Some (Inl e)
        | Inr s1 \<Rightarrow>
            let g2 = updateGameSpeed_xp (g1\<lparr>snake := s1\<rparr>);
                head = getHead_xp (snake g2)
            in if \<not> isValidPosition_xp (board g2) head then Some (Inr (g2\<lparr>gameOver := True\<rparr>))
               else if checkSelfCollision_xp (snake g2) then Some (Inr (g2\<lparr>gameOver := True\<rparr>))
               else if head = getPosition_xp (food g2) then
                 (let g3 = g2\<lparr>score := score g2 + getValue_xp (food g2)\<rparr>;
                      g4 = g3\<lparr>snake := grow_xp (snake g3)\<rparr>;
                      g5 = g4\<lparr>foodEaten := True\<rparr>;
                      g6 = g5\<lparr>oldFoodPos := getPosition_xp (food g5)\<rparr>
                  in case generateFood_xp rnd (width (board g6)) (height (board g6))
                            (getBody_xp (snake g6)) (food g6, randCalls g6) of
                       None \<Rightarrow> None
                     | Some (Inl e) \<Rightarrow> Some (Inl e)
                     | Some (Inr (f, n)) \<Rightarrow> Some (Inr (g6\<lparr>food := f, randCalls := n\<rparr>)))
               else Some (Inr g2))"

section \<open>Vocabulary of the specification\<close>

text \<open>
  The specification's "exact opposite" of a direction: \<open>UP\<close>/\<open>DOWN\<close> and
  \<open>LEFT\<close>/\<open>RIGHT\<close>. \<open>STOP\<close> has no opposite and is the opposite of none.
\<close>

definition exact_opposite :: "Direction \<Rightarrow> Direction \<Rightarrow> bool" where
  "exact_opposite d r =
     ((d = UP \<and> r = DOWN) \<or> (d = DOWN \<and> r = UP) \<or> (d = LEFT \<and> r = RIGHT) \<or> (d = RIGHT \<and> r = LEFT))"

text \<open>
  The cell that one round of the sampling loop picks when \<open>n\<close> calls of \<^verbatim>\<open>rand()\<close>
  were made before it: \<^verbatim>\<open>rand() % width\<close>, then \<^verbatim>\<open>rand() % height\<close>.
\<close>

definition draw :: "(nat \<Rightarrow> nat) \<Rightarrow> int \<Rightarrow> int \<Rightarrow> nat \<Rightarrow> Position" where
  "draw rnd w h n = Position (int (rnd n) smod w) (int (rnd (n + 1)) smod h)"

text \<open>
  A sequence of calls on one snake, for statements about "any sequence of
  \<^verbatim>\<open>setDirection\<close> and \<^verbatim>\<open>move\<close> calls". It stops at the first error.
\<close>

datatype snake_call = Call_setDirection Direction | Call_move

fun run_calls :: "snake_call list \<Rightarrow> Snake \<Rightarrow> error + Snake" where
  "run_calls [] s = Inr s"
| "run_calls (Call_setDirection d # cs) s = run_calls cs (setDirection d s)"
| "run_calls (Call_move # cs) s =
     (case move s of Inl e \<Rightarrow> Inl e | Inr s' \<Rightarrow> run_calls cs s')"

text \<open>
  What holds in every state of a game: the board has cells, the score is not negative, the
  body is not empty and, while the game is not over, free of repetitions; the food lies on
  the board, off the snake, and is one of the two kinds.
\<close>

definition game_inv :: "Game \<Rightarrow> bool" where
  "game_inv g \<longleftrightarrow>
     0 < width (board g) \<and> 0 < height (board g) \<and>
     0 \<le> score g \<and>
     body (snake g) \<noteq> [] \<and>
     (\<not> gameOver g \<longrightarrow> distinct (body (snake g))) \<and>
     isValidPosition (board g) (position (food g)) \<and>
     position (food g) \<notin> set (body (snake g)) \<and>
     (symbol (food g) = CHR ''*'' \<and> foodValue (food g) = 10 \<or>
      symbol (food g) = CHR ''$'' \<and> foodValue (food g) = 50)"

text \<open>
  Where the cells of the snake lie: on the default board, all within one step of it and,
  while the game is not over, all on it.
\<close>

definition cells_inv :: "Game \<Rightarrow> bool" where
  "cells_inv g \<longleftrightarrow>
     width (board g) = 30 \<and> height (board g) = 20 \<and>
     (\<forall>p\<in>set (body (snake g)).
        - 1 \<le> pos_x p \<and> pos_x p \<le> 30 \<and> - 1 \<le> pos_y p \<and> pos_y p \<le> 20) \<and>
     (\<not> gameOver g \<longrightarrow> (\<forall>p\<in>set (body (snake g)). isValidPosition (board g) p))"

text \<open>
  What the termination of the sampling loop needs of a "uniformly random" generator:
  read two calls at a time, from whichever call on, it picks every cell of the board at
  some point. A sequence of independent uniform draws does so with probability 1.
\<close>

definition fair :: "(nat \<Rightarrow> nat) \<Rightarrow> int \<Rightarrow> int \<Rightarrow> bool" where
  "fair rnd w h \<longleftrightarrow>
     (\<forall>n p. isValidPosition \<lparr>width = w, height = h\<rparr> p \<longrightarrow> (\<exists>k. draw rnd w h (n + 2 * k) = p))"

section \<open>Fixtures\<close>

text \<open>
  Generator sequences and states on which the theorems below are run: a generator that
  always returns 0, one that counts, one that is fair, and one that replays a list.
\<close>

definition rnd_zero :: "nat \<Rightarrow> nat" where
  "rnd_zero n = 0"

definition rnd_count :: "nat \<Rightarrow> nat" where
  "rnd_count n = 7 * n + 5"

text \<open>
  A generator that picks every cell of the 30 x 20 board again and again, whichever call
  the loop starts at: call \<open>2 * t\<close> returns \<open>t mod 60\<close> and call \<open>2 * t + 1\<close>
  returns \<open>(t div 60) mod 60\<close>.
\<close>

definition rnd_fair :: "nat \<Rightarrow> nat" where
  "rnd_fair m = (if even m then (m div 2) mod 60 else ((m div 2) div 60) mod 60)"

text \<open>The generator that replays a list and goes on as \<open>rnd_fair\<close>.\<close>

definition rnd_of_list :: "nat list \<Rightarrow> nat \<Rightarrow> nat" where
  "rnd_of_list xs n = (if n < length xs then xs ! n else rnd_fair n)"

definition rnd_scenario :: "nat \<Rightarrow> nat" where
  "rnd_scenario = rnd_of_list [11, 10, 1, 11, 9, 1, 0, 0, 1, 0, 0, 0]"

text \<open>A running game on the default board with the given body, direction and food cell.\<close>

definition fixture_game :: "Position list \<Rightarrow> Direction \<Rightarrow> Position \<Rightarrow> Game" where
  "fixture_game b d fp =
     \<lparr>snake = \<lparr>body = b, previousBody = b, direction = d, growing = False\<rparr>,
      food = Food_ctor\<lparr>position := fp\<rparr>, board = GameBoard_ctor 30 20,
      score = 0, highScore = 0, gameOver = False, gameRunning = True,
      paused = False, gameSpeed = 150, currentLevel = ''Level 1'',
      oldFoodPos = fp, foodEaten = False, randCalls = 0\<rparr>"

text \<open>
  One round of the loop of \<^verbatim>\<open>run\<close> with the key \<open>key\<close> pressed: \<^verbatim>\<open>processInput\<close>,
  then \<^verbatim>\<open>update\<close>. The state stays as it is should \<^verbatim>\<open>update\<close> not return one.
\<close>

definition after_tick :: "(nat \<Rightarrow> nat) \<Rightarrow> int \<Rightarrow> Game \<Rightarrow> Game" where
  "after_tick rnd key g =
     (case update rnd (processInput (Some key) 0 g) of Some (Inr g') \<Rightarrow> g' | _ \<Rightarrow> g)"

text \<open>
  The game that \<open>rnd_scenario\<close> starts, with the food at (11,10) right in front of the
  snake; the same after the key d; and three ticks later (d, w, a, two foods eaten), with
  the key s pressed, when the snake of length 5 is about to run into itself.
\<close>

definition scenario_start :: Game where
  "scenario_start =
     (fixture_game [Position 10 10, Position 9 10, Position 8 10] STOP (Position 11 10))
       \<lparr>randCalls := 3\<rparr>"

definition scenario_run :: Game where
  "scenario_run = processInput (Some 100) 0 scenario_start"

definition scenario_coiled :: Game where
  "scenario_coiled =
     processInput (Some 115) 0
       (after_tick rnd_scenario 97
         (after_tick rnd_scenario 119 (after_tick rnd_scenario 100 scenario_start)))"


text \<open>
  The game that \<open>rnd_zero\<close> starts, with the food at (0,0), and the state after ten ticks
  up and nine ticks left: the head is at (1,0), one step from the food.
\<close>

definition corner_start :: Game where
  "corner_start =
     (fixture_game [Position 10 10, Position 9 10, Position 8 10] STOP (Position 0 0))
       \<lparr>food := \<lparr>position = Position 0 0, symbol = CHR ''$'', color = LIGHT_YELLOW,
                  foodValue = 50\<rparr>,
        randCalls := 3\<rparr>"

definition scenario_corner :: Game where
  "scenario_corner =
     foldl (\<lambda>g key. after_tick rnd_zero key g) corner_start (replicate 10 119 @ replicate 9 97)"

section \<open>Snake: movement and steering\<close>

lemma move_STOP: "direction s = STOP \<Longrightarrow> move s = Inr s"
  by (simp add: move_def)

lemma move_Cons:
  assumes "direction s \<noteq> STOP" and "body s = Position hx hy # rest"
  shows "move s =
           Inr (s\<lparr>previousBody := body s,
                  body := (case direction s of
                             UP \<Rightarrow> Position hx (hy - 1)
                           | DOWN \<Rightarrow> Position hx (hy + 1)
                           | LEFT \<Rightarrow> Position (hx - 1) hy
                           | RIGHT \<Rightarrow> Position (hx + 1) hy
                           | STOP \<Rightarrow> Position hx hy) # (if growing s then body s else butlast (body s)),
                  growing := False\<rparr>)"
  using assms by (cases "growing s"; cases "direction s") (simp_all add: move_def Let_def)

lemma move_Nil: "direction s \<noteq> STOP \<Longrightarrow> body s = [] \<Longrightarrow> move s = Inl VectorIndexOutOfRange"
  by (simp add: move_def)

text \<open>
  Claim C1. \<^verbatim>\<open>move\<close> (the specification's \<open>advance\<close>) changes nothing when the direction
  is \<open>STOP\<close>. Otherwise, on a snake whose body is not empty and whose head is a pair of
  \<^verbatim>\<open>int\<close> values that the step does not take out of the range of \<^verbatim>\<open>int\<close>, it
  succeeds; the new head is the old head moved one cell (\<open>UP\<close>: y - 1, \<open>DOWN\<close>: y + 1,
  \<open>LEFT\<close>: x - 1, \<open>RIGHT\<close>: x + 1), again a pair of \<^verbatim>\<open>int\<close> values, and stands in
  front of the body; without pending growth the last segment is dropped and the length
  stays; with pending growth the old body is kept whole, the length grows by exactly one,
  and the growth flag is false afterwards. The two conditions exclude what is undefined
  behaviour in the source: \<^verbatim>\<open>body[0]\<close> of an empty vector and signed overflow.
\<close>

theorem move_spec:
  "(direction s = STOP \<longrightarrow> move s = Inr s) \<and>
   (direction s \<noteq> STOP \<and> body s = Position hx hy # rest \<and>
    INT_MIN \<le> hx \<and> hx \<le> INT_MAX \<and> INT_MIN \<le> hy \<and> hy \<le> INT_MAX \<and>
    (direction s = UP \<longrightarrow> INT_MIN < hy) \<and> (direction s = DOWN \<longrightarrow> hy < INT_MAX) \<and>
    (direction s = LEFT \<longrightarrow> INT_MIN < hx) \<and> (direction s = RIGHT \<longrightarrow> hx < INT_MAX) \<longrightarrow>
      (\<exists>s'. move s = Inr s' \<and>
            (direction s = UP \<longrightarrow> hd (body s') = Position hx (hy - 1)) \<and>
            (direction s = DOWN \<longrightarrow> hd (body s') = Position hx (hy + 1)) \<and>
            (direction s = LEFT \<longrightarrow> hd (body s') = Position (hx - 1) hy) \<and>
            (direction s = RIGHT \<longrightarrow> hd (body s') = Position (hx + 1) hy) \<and>
            INT_MIN \<le> pos_x (hd (body s')) \<and> pos_x (hd (body s')) \<le> INT_MAX \<and>
            INT_MIN \<le> pos_y (hd (body s')) \<and> pos_y (hd (body s')) \<le> INT_MAX \<and>
            (\<not> growing s \<longrightarrow>
               body s' = hd (body s') # butlast (body s) \<and>
               length (body s') = length (body s)) \<and>
            (growing s \<longrightarrow>
               body s' = hd (body s') # body s \<and>
               length (body s') = length (body s) + 1) \<and>
            \<not> growing s' \<and>
            direction s' = direction s \<and>
            previousBody s' = body s))"
proof (intro conjI impI)
  assume "direction s = STOP"
  then show "move s = Inr s" by (rule move_STOP)
next
  assume a: "direction s \<noteq> STOP \<and> body s = Position hx hy # rest \<and>
    INT_MIN \<le> hx \<and> hx \<le> INT_MAX \<and> INT_MIN \<le> hy \<and> hy \<le> INT_MAX \<and>
    (direction s = UP \<longrightarrow> INT_MIN < hy) \<and> (direction s = DOWN \<longrightarrow> hy < INT_MAX) \<and>
    (direction s = LEFT \<longrightarrow> INT_MIN < hx) \<and> (direction s = RIGHT \<longrightarrow> hx < INT_MAX)"
  then have m: "move s = Inr (s\<lparr>previousBody := body s,
                  body := (case direction s of
                             UP \<Rightarrow> Position hx (hy - 1)
                           | DOWN \<Rightarrow> Position hx (hy + 1)
                           | LEFT \<Rightarrow> Position (hx - 1) hy
                           | RIGHT \<Rightarrow> Position (hx + 1) hy
                           | STOP \<Rightarrow> Position hx hy) # (if growing s then body s else butlast (body s)),
                  growing := False\<rparr>)"
    using move_Cons [of s hx hy rest] by simp
  show "\<exists>s'. move s = Inr s' \<and>
            (direction s = UP \<longrightarrow> hd (body s') = Position hx (hy - 1)) \<and>
            (direction s = DOWN \<longrightarrow> hd (body s') = Position hx (hy + 1)) \<and>
            (direction s = LEFT \<longrightarrow> hd (body s') = Position (hx - 1) hy) \<and>
            (direction s = RIGHT \<longrightarrow> hd (body s') = Position (hx + 1) hy) \<and>
            INT_MIN \<le> pos_x (hd (body s')) \<and> pos_x (hd (body s')) \<le> INT_MAX \<and>
            INT_MIN \<le> pos_y (hd (body s')) \<and> pos_y (hd (body s')) \<le> INT_MAX \<and>
            (\<not> growing s \<longrightarrow>
               body s' = hd (body s') # butlast (body s) \<and>
               length (body s') = length (body s)) \<and>
            (growing s \<longrightarrow>
               body s' = hd (body s') # body s \<and>
               length (body s') = length (body s) + 1) \<and>
            \<not> growing s' \<and>
            direction s' = direction s \<and>
            previousBody s' = body s"
    using a by (cases "direction s") (simp_all add: m)
qed

theorem move_spec_witness:
  "move (Snake_ctor\<lparr>direction := STOP\<rparr>) = Inr (Snake_ctor\<lparr>direction := STOP\<rparr>) \<and>
   (\<exists>s'. move (Snake_ctor\<lparr>direction := RIGHT\<rparr>) = Inr s' \<and>
         body s' = [Position 11 10, Position 10 10, Position 9 10] \<and> \<not> growing s') \<and>
   (\<exists>s'. move (Snake_ctor\<lparr>direction := LEFT\<rparr>) = Inr s' \<and>
         body s' = [Position 9 10, Position 10 10, Position 9 10] \<and> \<not> growing s') \<and>
   (\<exists>s'. move (Snake_ctor\<lparr>direction := DOWN\<rparr>) = Inr s' \<and>
         body s' = [Position 10 11, Position 10 10, Position 9 10] \<and> \<not> growing s') \<and>
   (\<exists>s'. move (Snake_ctor\<lparr>direction := UP, growing := True\<rparr>) = Inr s' \<and>
         body s' = [Position 10 9, Position 10 10, Position 9 10, Position 8 10] \<and> \<not> growing s')"
  using move_spec [of "Snake_ctor\<lparr>direction := STOP\<rparr>" 0 0 "[]"]
    move_spec [of "Snake_ctor\<lparr>direction := RIGHT\<rparr>" 10 10 "[Position 9 10, Position 8 10]"]
    move_spec [of "Snake_ctor\<lparr>direction := LEFT\<rparr>" 10 10 "[Position 9 10, Position 8 10]"]
    move_spec [of "Snake_ctor\<lparr>direction := DOWN\<rparr>" 10 10 "[Position 9 10, Position 8 10]"]
    move_spec [of "Snake_ctor\<lparr>direction := UP, growing := True\<rparr>" 10 10 "[Position 9 10, Position 8 10]"]
  by (auto simp add: Snake_ctor_def push_back_def Let_def INT_MIN_def INT_MAX_def)

text \<open>
  Claim C2. For every current direction and every requested direction \<open>r\<close>,
  \<^verbatim>\<open>setDirection\<close> returns the snake unchanged when \<open>r\<close> is the exact opposite of
  the current direction, and otherwise the snake with direction \<open>r\<close> and nothing else
  changed; from \<open>STOP\<close> every request is accepted. The function has no error result:
  a rejected request is simply ignored.
\<close>

theorem setDirection_spec:
  "(exact_opposite (direction s) r \<longrightarrow> setDirection r s = s) \<and>
   (\<not> exact_opposite (direction s) r \<longrightarrow> setDirection r s = s\<lparr>direction := r\<rparr>) \<and>
   (direction s = STOP \<longrightarrow> setDirection r s = s\<lparr>direction := r\<rparr>)"
  by (cases "direction s"; cases r) (simp_all add: setDirection_def exact_opposite_def)

theorem setDirection_spec_witness:
  "setDirection DOWN (Snake_ctor\<lparr>direction := UP\<rparr>) = Snake_ctor\<lparr>direction := UP\<rparr> \<and>
   setDirection LEFT (Snake_ctor\<lparr>direction := UP\<rparr>) = Snake_ctor\<lparr>direction := LEFT\<rparr> \<and>
   setDirection LEFT Snake_ctor = Snake_ctor\<lparr>direction := LEFT\<rparr>"
  using setDirection_spec [of "Snake_ctor\<lparr>direction := UP\<rparr>" DOWN]
    setDirection_spec [of "Snake_ctor\<lparr>direction := UP\<rparr>" LEFT]
    setDirection_spec [of Snake_ctor LEFT]
  by (simp add: exact_opposite_def Snake_ctor_def Let_def)

lemma move_cases:
  assumes "body s \<noteq> []"
  obtains (stop) "direction s = STOP" and "move s = Inr s"
  | (step) h' s' where "direction s \<noteq> STOP" and "move s = Inr s'"
      and "body s' = h' # (if growing s then body s else butlast (body s))"
      and "direction s' = direction s" and "\<not> growing s'"
proof (cases "direction s = STOP")
  case True
  then show ?thesis using stop move_STOP by blast
next
  case False
  from assms obtain hx hy rest where b: "body s = Position hx hy # rest"
    by (cases "body s") (auto intro: Position.exhaust)
  show ?thesis
    by (rule step [OF False move_Cons [OF False b]]) simp_all
qed

lemma getHead_Cons: "body s = h # t \<Longrightarrow> getHead s = h"
  by (simp add: getHead_def)

lemma Snake_ctor_body: "body Snake_ctor = [Position 10 10, Position 9 10, Position 8 10]"
  by (simp add: Snake_ctor_def push_back_def Let_def)

lemma reset_body: "body (reset s) = [Position 10 10, Position 9 10, Position 8 10]"
  by (simp add: reset_def push_back_def Let_def)

lemma setDirection_fields [simp]:
  "body (setDirection d s) = body s"
  "growing (setDirection d s) = growing s"
  "previousBody (setDirection d s) = previousBody s"
  by (simp_all add: setDirection_def)

section \<open>Self collision\<close>

text \<open>The loop looks for the head among the segments from index \<open>i\<close> on.\<close>

lemma checkSelfCollision_loop_iff:
  "checkSelfCollision_loop head b i \<longleftrightarrow> head \<in> set (drop i b)"
proof (induction head b i rule: checkSelfCollision_loop.induct)
  case (1 head b i)
  show ?case
  proof (cases "i < length b")
    case True
    then have "drop i b = b ! i # drop (i + 1) b"
      by (simp add: Cons_nth_drop_Suc)
    with True 1 show ?thesis
      by (subst checkSelfCollision_loop.simps) auto
  next
    case False
    then show ?thesis
      by (subst checkSelfCollision_loop.simps) simp
  qed
qed

lemma checkSelfCollision_iff:
  "checkSelfCollision s \<longleftrightarrow> body s \<noteq> [] \<and> hd (body s) \<in> set (tl (body s))"
proof (cases "body s")
  case Nil
  then show ?thesis by (simp add: checkSelfCollision_def)
next
  case (Cons h t)
  then show ?thesis
    by (cases t) (simp_all add: checkSelfCollision_def checkSelfCollision_loop_iff)
qed

section \<open>Speed and level\<close>

lemma sdiv_nonneg: "0 \<le> a \<Longrightarrow> 0 < b \<Longrightarrow> (a::int) sdiv b = a div b"
  by (simp add: signed_divide_int_def sgn_if)

lemma smod_nonneg: "0 \<le> a \<Longrightarrow> 0 < b \<Longrightarrow> (a::int) smod b = a mod b"
  by (simp add: signed_modulo_int_def sgn_if)

text \<open>
  For a score that a 32-bit \<^verbatim>\<open>int\<close> holds, no step of \<^verbatim>\<open>updateGameSpeed\<close> leaves
  the 32-bit range.
\<close>

lemma updateGameSpeed_in_int_range:
  assumes "0 \<le> score g" and "score g < 2147483648"
  shows "0 < score g sdiv 100 + 1 \<and> (score g sdiv 100 + 1) * 15 < 2147483648 \<and>
         - 2147483648 \<le> 200 - (score g sdiv 100 + 1) * 15"
proof -
  have "score g sdiv 100 = score g div 100" using assms by (simp add: sdiv_nonneg)
  moreover have "0 \<le> score g div 100" "score g div 100 \<le> 21474836"
    using assms by presburger+
  ultimately show ?thesis by simp
qed

text \<open>
  Claim C6. For scores \<open>0 \<le> s1 < s2\<close>, \<^verbatim>\<open>updateGameSpeed\<close> computes the level
  \<open>s div 100 + 1\<close> (shown in the label) and the tick interval
  \<open>max 50 (200 - level * 15)\<close>; the level of the higher score is not lower, its interval
  is not longer, and no interval is below 50.
\<close>

theorem updateGameSpeed_spec:
  assumes "0 \<le> s1" and "s1 < s2"
  shows "gameSpeed (updateGameSpeed (g\<lparr>score := s1\<rparr>)) = max 50 (200 - (s1 div 100 + 1) * 15) \<and>
         currentLevel (updateGameSpeed (g\<lparr>score := s1\<rparr>)) = ''Level '' @ to_string (s1 div 100 + 1) \<and>
         gameSpeed (updateGameSpeed (g\<lparr>score := s2\<rparr>)) = max 50 (200 - (s2 div 100 + 1) * 15) \<and>
         currentLevel (updateGameSpeed (g\<lparr>score := s2\<rparr>)) = ''Level '' @ to_string (s2 div 100 + 1) \<and>
         s1 div 100 + 1 \<le> s2 div 100 + 1 \<and>
         gameSpeed (updateGameSpeed (g\<lparr>score := s2\<rparr>)) \<le> gameSpeed (updateGameSpeed (g\<lparr>score := s1\<rparr>)) \<and>
         50 \<le> gameSpeed (updateGameSpeed (g\<lparr>score := s1\<rparr>)) \<and>
         50 \<le> gameSpeed (updateGameSpeed (g\<lparr>score := s2\<rparr>))"
proof -
  have d1: "s1 sdiv 100 = s1 div 100" using assms by (simp add: sdiv_nonneg)
  have d2: "s2 sdiv 100 = s2 div 100" using assms by (simp add: sdiv_nonneg)
  have m: "s1 div 100 \<le> s2 div 100" using assms by (simp add: zdiv_mono1)
  show ?thesis
    using m by (simp add: updateGameSpeed_def Let_def d1 d2)
qed

theorem updateGameSpeed_spec_witness:
  "gameSpeed (updateGameSpeed (fixture_game [] STOP (Position 0 0)\<lparr>score := 250\<rparr>)) = 155 \<and>
   currentLevel (updateGameSpeed (fixture_game [] STOP (Position 0 0)\<lparr>score := 250\<rparr>)) = ''Level 3'' \<and>
   gameSpeed (updateGameSpeed (fixture_game [] STOP (Position 0 0)\<lparr>score := 1000\<rparr>)) = 50 \<and>
   currentLevel (updateGameSpeed (fixture_game [] STOP (Position 0 0)\<lparr>score := 1000\<rparr>)) = ''Level 11''"
  using updateGameSpeed_spec [of 250 1000 "fixture_game [] STOP (Position 0 0)"]
  by (simp add: to_string_def)

lemma updateGameSpeed_fields [simp]:
  "snake (updateGameSpeed g) = snake g"
  "food (updateGameSpeed g) = food g"
  "board (updateGameSpeed g) = board g"
  "score (updateGameSpeed g) = score g"
  "gameOver (updateGameSpeed g) = gameOver g"
  "paused (updateGameSpeed g) = paused g"
  "randCalls (updateGameSpeed g) = randCalls g"
  by (simp_all add: updateGameSpeed_def Let_def)

section \<open>Food: the sampling loop\<close>

lemma draw_valid:
  assumes "0 < w" and "0 < h"
  shows "isValidPosition \<lparr>width = w, height = h\<rparr> (draw rnd w h n)"
  using assms by (simp add: isValidPosition_def draw_def smod_nonneg)

text \<open>
  If the loop returns, it returns the first cell of the sequence that is off the snake,
  having made two calls of \<^verbatim>\<open>rand()\<close> for each cell it looked at.
\<close>

lemma generateFood_loop_Some_aux:
  assumes "generateFood_loop rnd w h snakeBody n = Some y"
  shows "w \<noteq> 0 \<longrightarrow> h \<noteq> 0 \<longrightarrow>
     (\<exists>k. y = Inr (draw rnd w h (n + 2 * k), n + 2 * k + 2) \<and>
          draw rnd w h (n + 2 * k) \<notin> set snakeBody \<and>
          (\<forall>j<k. draw rnd w h (n + 2 * j) \<in> set snakeBody))"
  using assms
proof (induct rnd w h snakeBody n y rule: generateFood_loop.raw_induct)
  case (1 loop rnd w h snakeBody n y)
  show ?case
  proof (intro impI)
    assume w: "w \<noteq> 0" and h: "h \<noteq> 0"
    show "\<exists>k. y = Inr (draw rnd w h (n + 2 * k), n + 2 * k + 2) \<and>
          draw rnd w h (n + 2 * k) \<notin> set snakeBody \<and>
          (\<forall>j<k. draw rnd w h (n + 2 * j) \<in> set snakeBody)"
    proof (cases "draw rnd w h n \<in> set snakeBody")
      case True
      with 1(2) w h have l: "loop rnd w h snakeBody (n + 2) = Some y"
        by (simp add: draw_def)
      have "generateFood_loop rnd w h snakeBody n = generateFood_loop rnd w h snakeBody (n + 2)"
        using True w h by (subst generateFood_loop.simps) (simp add: draw_def)
      with 1(3) have g: "generateFood_loop rnd w h snakeBody (n + 2) = Some y"
        by simp
      from 1(1) [OF l g] w h obtain k where
        k: "y = Inr (draw rnd w h (n + 2 + 2 * k), n + 2 + 2 * k + 2)"
           "draw rnd w h (n + 2 + 2 * k) \<notin> set snakeBody"
           "\<forall>j<k. draw rnd w h (n + 2 + 2 * j) \<in> set snakeBody"
        by blast
      have "\<forall>j<Suc k. draw rnd w h (n + 2 * j) \<in> set snakeBody"
      proof (intro allI impI)
        fix j assume "j < Suc k"
        show "draw rnd w h (n + 2 * j) \<in> set snakeBody"
        proof (cases j)
          case 0
          with True show ?thesis by simp
        next
          case (Suc i)
          with \<open>j < Suc k\<close> k(3) have "draw rnd w h (n + 2 + 2 * i) \<in> set snakeBody" by simp
          with Suc show ?thesis by (simp add: add.assoc)
        qed
      qed
      with k(1,2) show ?thesis
        by (intro exI [of _ "Suc k"]) (simp add: add.assoc)
    next
      case False
      with 1(2) w h have "y = Inr (draw rnd w h n, n + 2)"
        by (simp add: draw_def)
      with False show ?thesis
        by (intro exI [of _ 0]) simp
    qed
  qed
qed (rule assms)

lemma generateFood_loop_Some:
  assumes "generateFood_loop rnd w h snakeBody n = Some y" and "w \<noteq> 0" and "h \<noteq> 0"
  shows "\<exists>k. y = Inr (draw rnd w h (n + 2 * k), n + 2 * k + 2) \<and>
             draw rnd w h (n + 2 * k) \<notin> set snakeBody \<and>
             (\<forall>j<k. draw rnd w h (n + 2 * j) \<in> set snakeBody)"
  using generateFood_loop_Some_aux [OF assms(1)] assms(2,3) by blast

text \<open>Conversely the loop returns as soon as the sequence offers such a cell.\<close>

lemma generateFood_loop_first:
  assumes "w \<noteq> 0" and "h \<noteq> 0"
    and "draw rnd w h (n + 2 * k) \<notin> set snakeBody"
    and "\<forall>j<k. draw rnd w h (n + 2 * j) \<in> set snakeBody"
  shows "generateFood_loop rnd w h snakeBody n = Some (Inr (draw rnd w h (n + 2 * k), n + 2 * k + 2))"
  using assms(3,4)
proof (induction k arbitrary: n)
  case 0
  with assms(1,2) show ?case
    by (subst generateFood_loop.simps) (simp add: draw_def)
next
  case (Suc k)
  from Suc.prems(2) have here: "draw rnd w h n \<in> set snakeBody"
    by (metis add.right_neutral mult_0_right zero_less_Suc)
  have a: "draw rnd w h (n + 2 + 2 * k) \<notin> set snakeBody"
    using Suc.prems(1) by (simp add: add.assoc)
  have b: "\<forall>j<k. draw rnd w h (n + 2 + 2 * j) \<in> set snakeBody"
  proof (intro allI impI)
    fix j assume "j < k"
    then have "draw rnd w h (n + 2 * Suc j) \<in> set snakeBody"
      using Suc.prems(2) by (meson Suc_less_eq)
    then show "draw rnd w h (n + 2 + 2 * j) \<in> set snakeBody"
      by (simp add: add.assoc)
  qed
  have "generateFood_loop rnd w h snakeBody n = generateFood_loop rnd w h snakeBody (n + 2)"
    using assms(1,2) here by (subst generateFood_loop.simps) (simp add: draw_def)
  also have "\<dots> = Some (Inr (draw rnd w h (n + 2 + 2 * k), n + 2 + 2 * k + 2))"
    by (rule Suc.IH [OF a b])
  finally show ?case by (simp add: add.assoc)
qed

lemma generateFood_loop_returns:
  assumes "w \<noteq> 0" and "h \<noteq> 0" and "\<exists>k. draw rnd w h (n + 2 * k) \<notin> set snakeBody"
  shows "\<exists>k. generateFood_loop rnd w h snakeBody n = Some (Inr (draw rnd w h (n + 2 * k), n + 2 * k + 2)) \<and>
             draw rnd w h (n + 2 * k) \<notin> set snakeBody"
proof -
  define k where "k = (LEAST k. draw rnd w h (n + 2 * k) \<notin> set snakeBody)"
  have free: "draw rnd w h (n + 2 * k) \<notin> set snakeBody"
    unfolding k_def using assms(3) by (rule LeastI_ex)
  have "\<forall>j<k. draw rnd w h (n + 2 * j) \<in> set snakeBody"
    unfolding k_def using not_less_Least by blast
  with assms(1,2) free show ?thesis
    using generateFood_loop_first by blast
qed

lemma generateFood_loop_None:
  assumes "w \<noteq> 0" and "h \<noteq> 0" and "\<forall>k. draw rnd w h (n + 2 * k) \<in> set snakeBody"
  shows "generateFood_loop rnd w h snakeBody n = None"
proof (cases "generateFood_loop rnd w h snakeBody n")
  case None
  then show ?thesis .
next
  case (Some y)
  from generateFood_loop_Some [OF Some assms(1,2)] assms(3) show ?thesis by blast
qed

lemma generateFood_Some:
  assumes "generateFood rnd w h snakeBody (f, n) = Some r" and "0 < w" and "0 < h"
  shows "\<exists>f' k. r = Inr (f', n + 2 * k + 3) \<and>
           position f' = draw rnd w h (n + 2 * k) \<and>
           position f' \<notin> set snakeBody \<and>
           isValidPosition \<lparr>width = w, height = h\<rparr> (position f') \<and>
           (symbol f' = CHR ''*'' \<and> foodValue f' = 10 \<or> symbol f' = CHR ''$'' \<and> foodValue f' = 50)"
proof -
  from assms(1) obtain y where y: "generateFood_loop rnd w h snakeBody n = Some y"
    by (cases "generateFood_loop rnd w h snakeBody n") (simp_all add: generateFood_def)
  from generateFood_loop_Some [OF y] assms(2,3) obtain k where
    k: "y = Inr (draw rnd w h (n + 2 * k), n + 2 * k + 2)"
       "draw rnd w h (n + 2 * k) \<notin> set snakeBody"
    by auto
  have v: "isValidPosition \<lparr>width = w, height = h\<rparr> (draw rnd w h (n + 2 * k))"
    using assms(2,3) by (rule draw_valid)
  from assms(1) y k v show ?thesis
    by (auto simp add: generateFood_def split: if_splits)
qed

lemma generateFood_returns:
  assumes "0 < w" and "0 < h" and "\<exists>k. draw rnd w h (n + 2 * k) \<notin> set snakeBody"
  shows "\<exists>r. generateFood rnd w h snakeBody (f, n) = Some r"
proof -
  from generateFood_loop_returns [of w h rnd n snakeBody] assms obtain k where
    "generateFood_loop rnd w h snakeBody n = Some (Inr (draw rnd w h (n + 2 * k), n + 2 * k + 2))"
    by auto
  then show ?thesis
    by (simp add: generateFood_def)
qed

lemma generateFood_None:
  assumes "0 < w" and "0 < h" and "\<forall>k. draw rnd w h (n + 2 * k) \<in> set snakeBody"
  shows "generateFood rnd w h snakeBody (f, n) = None"
  using generateFood_loop_None [of w h rnd n snakeBody] assms
  by (simp add: generateFood_def)

lemma rnd_zero_draw: "draw rnd_zero 30 20 m = Position 0 0"
  by (simp add: draw_def rnd_zero_def)

section \<open>Fair generators\<close>

text \<open>A fair generator offers a free cell whenever the board has one.\<close>

lemma fair_offers_free_cell:
  assumes "fair rnd w h" and "\<exists>p. isValidPosition \<lparr>width = w, height = h\<rparr> p \<and> p \<notin> set snakeBody"
  shows "\<exists>k. draw rnd w h (n + 2 * k) \<notin> set snakeBody"
  using assms unfolding fair_def by metis

text \<open>
  The board has \<open>width * height\<close> cells, so a body of fewer cells leaves one free.
\<close>

lemma card_board:
  assumes "0 < w" and "0 < h"
  shows "finite {p. isValidPosition \<lparr>width = w, height = h\<rparr> p}"
    and "card {p. isValidPosition \<lparr>width = w, height = h\<rparr> p} = nat (w * h)"
proof -
  have eq: "{p. isValidPosition \<lparr>width = w, height = h\<rparr> p} =
              (\<lambda>(a, b). Position a b) ` ({0..<w} \<times> {0..<h})"
  proof (intro set_eqI iffI)
    fix p assume "p \<in> {p. isValidPosition \<lparr>width = w, height = h\<rparr> p}"
    then show "p \<in> (\<lambda>(a, b). Position a b) ` ({0..<w} \<times> {0..<h})"
      by (cases p) (auto simp add: isValidPosition_def)
  next
    fix p assume "p \<in> (\<lambda>(a, b). Position a b) ` ({0..<w} \<times> {0..<h})"
    then show "p \<in> {p. isValidPosition \<lparr>width = w, height = h\<rparr> p}"
      by (auto simp add: isValidPosition_def)
  qed
  show "finite {p. isValidPosition \<lparr>width = w, height = h\<rparr> p}"
    unfolding eq by simp
  have "inj_on (\<lambda>(a, b). Position a b) ({0..<w} \<times> {0..<h})"
    by (auto simp add: inj_on_def)
  then have "card ((\<lambda>(a, b). Position a b) ` ({0..<w} \<times> {0..<h})) = card ({0..<w} \<times> {0..<h})"
    by (rule card_image)
  also have "\<dots> = nat w * nat h"
    by (simp add: card_cartesian_product)
  also have "\<dots> = nat (w * h)"
    using assms by (simp add: nat_mult_distrib)
  finally show "card {p. isValidPosition \<lparr>width = w, height = h\<rparr> p} = nat (w * h)"
    unfolding eq .
qed

lemma free_cell_if_fewer:
  assumes "0 < w" and "0 < h" and "int (card (set snakeBody)) < w * h"
  shows "\<exists>p. isValidPosition \<lparr>width = w, height = h\<rparr> p \<and> p \<notin> set snakeBody"
proof (rule ccontr)
  assume "\<not> ?thesis"
  then have "{p. isValidPosition \<lparr>width = w, height = h\<rparr> p} \<subseteq> set snakeBody" by blast
  then have "card {p. isValidPosition \<lparr>width = w, height = h\<rparr> p} \<le> card (set snakeBody)"
    by (intro card_mono) simp_all
  with card_board(2) [OF assms(1,2)] assms(3) show False by simp
qed

text \<open>
  Fair generators exist: \<open>rnd_fair\<close> is one for the default board, and so is every
  generator that replays a list first.
\<close>

lemma mod_60: "r < 60 \<Longrightarrow> (60 * q + r) mod 60 = (r::nat)"
  by simp

lemma div_60: "r < 60 \<Longrightarrow> (60 * q + r) div 60 = (q::nat)"
  by simp

lemma rnd_fair_even: "rnd_fair (2 * t) = t mod 60"
  by (simp add: rnd_fair_def)

lemma rnd_fair_odd: "rnd_fair (Suc (2 * t)) = (t div 60) mod 60"
  by (simp add: rnd_fair_def)

lemma draw_rnd_fair_even:
  assumes "a < 30" and "b < 20"
  shows "draw rnd_fair 30 20 (2 * (60 * (60 * c + b) + a)) = Position (int a) (int b)"
proof -
  let ?t = "60 * (60 * c + b) + a"
  have 1: "?t mod 60 = a" using assms by (intro mod_60) simp
  have "?t div 60 = 60 * c + b" using assms by (intro div_60) simp
  moreover have "(60 * c + b) mod 60 = b" using assms by (intro mod_60) simp
  ultimately have 2: "(?t div 60) mod 60 = b" by (rule ssubst)
  have "draw rnd_fair 30 20 (2 * ?t) =
          Position (int (rnd_fair (2 * ?t)) smod 30) (int (rnd_fair (Suc (2 * ?t))) smod 20)"
    by (simp add: draw_def)
  also have "\<dots> = Position (int a smod 30) (int b smod 20)"
    by (simp only: rnd_fair_even rnd_fair_odd 1 2)
  also have "\<dots> = Position (int a) (int b)"
    using assms by (simp add: smod_nonneg)
  finally show ?thesis .
qed

lemma draw_rnd_fair_odd:
  assumes "a < 30" and "b < 20"
  shows "draw rnd_fair 30 20 (Suc (2 * (60 * (60 * c + a) + (b + 19)))) = Position (int a) (int b)"
proof -
  let ?t = "60 * (60 * c + a) + (b + 19)"
  have "?t div 60 = 60 * c + a" using assms by (intro div_60) simp
  moreover have "(60 * c + a) mod 60 = a" using assms by (intro mod_60) simp
  ultimately have 1: "(?t div 60) mod 60 = a" by (rule ssubst)
  have "Suc ?t = 60 * (60 * c + a) + (b + 20)" by simp
  moreover have "(60 * (60 * c + a) + (b + 20)) mod 60 = b + 20"
    using assms by (intro mod_60) simp
  ultimately have 2: "Suc ?t mod 60 = b + 20" by (rule ssubst)
  have "draw rnd_fair 30 20 (Suc (2 * ?t)) =
          Position (int (rnd_fair (Suc (2 * ?t))) smod 30) (int (rnd_fair (2 * Suc ?t)) smod 20)"
    by (simp add: draw_def)
  also have "\<dots> = Position (int a smod 30) (int (b + 20) smod 20)"
    by (simp only: rnd_fair_even rnd_fair_odd 1 2)
  also have "\<dots> = Position (int a) (int b)"
    using assms by (simp add: smod_nonneg)
  finally show ?thesis .
qed

lemma fair_rnd_fair: "fair rnd_fair 30 20"
  unfolding fair_def
proof (intro allI impI)
  fix n :: nat and p :: Position
  assume v: "isValidPosition \<lparr>width = 30, height = 20\<rparr> p"
  obtain x y where p: "p = Position x y" by (cases p)
  with v have r: "0 \<le> x" "x < 30" "0 \<le> y" "y < 20"
    by (simp_all add: isValidPosition_def)
  define a b where "a = nat x" and "b = nat y"
  with r have ab: "a < 30" "b < 20" and xy: "Position (int a) (int b) = p"
    using p by simp_all
  show "\<exists>k. draw rnd_fair 30 20 (n + 2 * k) = p"
  proof (cases "even n")
    case True
    then obtain t0 where n: "n = 2 * t0" by (auto elim: evenE)
    define k where "k = 60 * (60 * Suc t0 + b) + a - t0"
    have "n + 2 * k = 2 * (60 * (60 * Suc t0 + b) + a)"
      unfolding k_def n by simp
    then have "draw rnd_fair 30 20 (n + 2 * k) =
                 draw rnd_fair 30 20 (2 * (60 * (60 * Suc t0 + b) + a))"
      by (rule arg_cong)
    also have "\<dots> = p"
      using draw_rnd_fair_even [OF ab, of "Suc t0"] xy by (rule trans)
    finally show ?thesis ..
  next
    case False
    then obtain t0 where n: "n = Suc (2 * t0)" by (auto elim: oddE)
    define k where "k = 60 * (60 * Suc t0 + a) + (b + 19) - t0"
    have "n + 2 * k = Suc (2 * (60 * (60 * Suc t0 + a) + (b + 19)))"
      unfolding k_def n by simp
    then have "draw rnd_fair 30 20 (n + 2 * k) =
                 draw rnd_fair 30 20 (Suc (2 * (60 * (60 * Suc t0 + a) + (b + 19))))"
      by (rule arg_cong)
    also have "\<dots> = p"
      using draw_rnd_fair_odd [OF ab, of "Suc t0"] xy by (rule trans)
    finally show ?thesis ..
  qed
qed



section \<open>The tick\<close>

text \<open>\<^verbatim>\<open>update\<close>, branch by branch.\<close>

lemma update_idle: "gameOver g \<or> paused g \<Longrightarrow> update rnd g = Some (Inr g)"
  by (simp add: update_def)

lemma update_move_error:
  "\<not> gameOver g \<Longrightarrow> \<not> paused g \<Longrightarrow> move (snake g) = Inl e \<Longrightarrow> update rnd g = Some (Inl e)"
  by (simp add: update_def)

lemma update_wall:
  assumes "\<not> gameOver g" and "\<not> paused g" and "move (snake g) = Inr s'"
    and "\<not> isValidPosition (board g) (getHead s')"
  shows "update rnd g =
           Some (Inr ((updateGameSpeed (g\<lparr>foodEaten := False, snake := s'\<rparr>))\<lparr>gameOver := True\<rparr>))"
  using assms by (simp add: update_def Let_def)

lemma update_self:
  assumes "\<not> gameOver g" and "\<not> paused g" and "move (snake g) = Inr s'"
    and "isValidPosition (board g) (getHead s')" and "checkSelfCollision s'"
  shows "update rnd g =
           Some (Inr ((updateGameSpeed (g\<lparr>foodEaten := False, snake := s'\<rparr>))\<lparr>gameOver := True\<rparr>))"
  using assms by (simp add: update_def Let_def)

lemma update_plain:
  assumes "\<not> gameOver g" and "\<not> paused g" and "move (snake g) = Inr s'"
    and "isValidPosition (board g) (getHead s')" and "\<not> checkSelfCollision s'"
    and "getHead s' \<noteq> position (food g)"
  shows "update rnd g = Some (Inr (updateGameSpeed (g\<lparr>foodEaten := False, snake := s'\<rparr>)))"
  using assms by (simp add: update_def Let_def getPosition_def)

lemma update_eat:
  assumes "\<not> gameOver g" and "\<not> paused g" and "move (snake g) = Inr s'"
    and "isValidPosition (board g) (getHead s')" and "\<not> checkSelfCollision s'"
    and "getHead s' = position (food g)"
  shows "update rnd g =
           (case generateFood rnd (width (board g)) (height (board g)) (body s')
                   (food g, randCalls g) of
              None \<Rightarrow> None
            | Some (Inl e) \<Rightarrow> Some (Inl e)
            | Some (Inr (f, n)) \<Rightarrow>
                Some (Inr ((updateGameSpeed (g\<lparr>foodEaten := False, snake := s'\<rparr>))
                             \<lparr>score := score g + foodValue (food g),
                              snake := grow s',
                              foodEaten := True,
                              oldFoodPos := position (food g),
                              food := f,
                              randCalls := n\<rparr>)))"
  using assms
  by (simp add: update_def Let_def getPosition_def getValue_def getBody_def grow_def
        split: option.splits sum.splits prod.splits)

text \<open>
  Claim C5. \<^verbatim>\<open>isValidPosition\<close> is false exactly when x < 0, x \<ge> width, y < 0 or
  y \<ge> height; and a tick of a running game (not over, not paused) whose move puts the
  head on such a cell ends the game: \<^verbatim>\<open>update\<close> returns with \<^verbatim>\<open>gameOver\<close> set, the
  score and the food untouched.
\<close>

theorem isValidPosition_spec:
  "(\<not> isValidPosition b p \<longleftrightarrow>
      pos_x p < 0 \<or> pos_x p \<ge> width b \<or> pos_y p < 0 \<or> pos_y p \<ge> height b) \<and>
   (\<not> gameOver g \<and> \<not> paused g \<and> move (snake g) = Inr s' \<and>
    \<not> isValidPosition (board g) (getHead s') \<longrightarrow>
      (\<exists>g'. update rnd g = Some (Inr g') \<and> gameOver g' \<and> snake g' = s' \<and>
            score g' = score g \<and> food g' = food g))"
proof (intro conjI impI)
  show "\<not> isValidPosition b p \<longleftrightarrow>
      pos_x p < 0 \<or> pos_x p \<ge> width b \<or> pos_y p < 0 \<or> pos_y p \<ge> height b"
    by (auto simp add: isValidPosition_def)
next
  assume a: "\<not> gameOver g \<and> \<not> paused g \<and> move (snake g) = Inr s' \<and>
    \<not> isValidPosition (board g) (getHead s')"
  then have "update rnd g =
           Some (Inr ((updateGameSpeed (g\<lparr>foodEaten := False, snake := s'\<rparr>))\<lparr>gameOver := True\<rparr>))"
    by (intro update_wall) simp_all
  then show "\<exists>g'. update rnd g = Some (Inr g') \<and> gameOver g' \<and> snake g' = s' \<and>
            score g' = score g \<and> food g' = food g"
    by simp
qed

theorem isValidPosition_spec_witness:
  "\<not> isValidPosition (GameBoard_ctor 30 20) (Position 30 10) \<and>
   isValidPosition (GameBoard_ctor 30 20) (Position 29 10) \<and>
   (\<exists>g'. update rnd_count
           (fixture_game [Position 29 10, Position 28 10, Position 27 10] RIGHT (Position 5 5)) =
           Some (Inr g') \<and>
         gameOver g' \<and>
         body (snake g') = [Position 30 10, Position 29 10, Position 28 10])"
proof -
  let ?g = "fixture_game [Position 29 10, Position 28 10, Position 27 10] RIGHT (Position 5 5)"
  let ?s = "\<lparr>body = [Position 30 10, Position 29 10, Position 28 10],
             previousBody = [Position 29 10, Position 28 10, Position 27 10],
             direction = RIGHT, growing = False\<rparr>"
  have m: "move (snake ?g) = Inr ?s"
    by (simp add: fixture_game_def move_def Let_def)
  have h: "getHead ?s = Position 30 10"
    by (simp add: getHead_def)
  have st: "\<not> gameOver ?g" "\<not> paused ?g" "board ?g = GameBoard_ctor 30 20"
    by (simp_all add: fixture_game_def)
  from isValidPosition_spec [of "GameBoard_ctor 30 20" "Position 30 10" ?g ?s rnd_count]
    isValidPosition_spec [of "GameBoard_ctor 30 20" "Position 29 10" ?g ?s rnd_count]
    m h st
  show ?thesis
    by (auto simp add: GameBoard_ctor_def)
qed

section \<open>The invariant of the game\<close>

lemma isValidPosition_board_cong:
  "width b = width b' \<Longrightarrow> height b = height b' \<Longrightarrow> isValidPosition b p = isValidPosition b' p"
  by (simp add: isValidPosition_def)

lemma inv_update:
  assumes inv: "game_inv g" and upd: "update rnd g = Some (Inr g')"
  shows "game_inv g'"
proof (cases "gameOver g \<or> paused g")
  case True
  with upd inv show ?thesis by (simp add: update_idle)
next
  case False
  then have run: "\<not> gameOver g" "\<not> paused g" by simp_all
  from inv have ne: "body (snake g) \<noteq> []" and d: "distinct (body (snake g))"
    and fv: "isValidPosition (board g) (position (food g))"
    and fb: "position (food g) \<notin> set (body (snake g))"
    and wh: "0 < width (board g)" "0 < height (board g)"
    using run by (simp_all add: game_inv_def)
  from ne show ?thesis
  proof (cases rule: move_cases)
    case stop
    have h: "getHead (snake g) \<in> set (body (snake g))"
      using ne by (cases "body (snake g)") (simp_all add: getHead_def)
    with fb have nf: "getHead (snake g) \<noteq> position (food g)" by auto
    have nc: "\<not> checkSelfCollision (snake g)"
      using d ne by (cases "body (snake g)") (simp_all add: checkSelfCollision_iff)
    show ?thesis
    proof (cases "isValidPosition (board g) (getHead (snake g))")
      case True
      from update_plain [OF run stop(2) True nc nf, of rnd] upd inv show ?thesis
        by (auto simp add: game_inv_def isValidPosition_def)
    next
      case False
      from update_wall [OF run stop(2) False, of rnd] upd inv show ?thesis
        by (auto simp add: game_inv_def isValidPosition_def)
    qed
  next
    case (step h' s')
    have hd: "getHead s' = h'" using step(3) by (rule getHead_Cons)
    have sub: "set (if growing (snake g) then body (snake g) else butlast (body (snake g)))
                 \<subseteq> set (body (snake g))"
      by (auto dest: in_set_butlastD)
    have dr: "distinct (if growing (snake g) then body (snake g) else butlast (body (snake g)))"
      using d by (simp add: distinct_butlast)
    have coll: "checkSelfCollision s' \<longleftrightarrow>
                  h' \<in> set (if growing (snake g) then body (snake g) else butlast (body (snake g)))"
      using step(3) by (simp add: checkSelfCollision_iff)
    show ?thesis
    proof (cases "isValidPosition (board g) h'")
      case False
      with fv have "h' \<noteq> position (food g)" by auto
      with sub fb have "position (food g) \<notin> set (body s')"
        using step(3) by auto
      with update_wall [OF run step(2), of rnd] False hd upd inv step(3) show ?thesis
        by (auto simp add: game_inv_def isValidPosition_def)
    next
      case True
      show ?thesis
      proof (cases "checkSelfCollision s'")
        case c: True
        with coll sub fb have "h' \<noteq> position (food g)" by auto
        with sub fb have "position (food g) \<notin> set (body s')"
          using step(3) by auto
        with update_self [OF run step(2) _ c, of rnd] True hd upd inv step(3) show ?thesis
          by (auto simp add: game_inv_def isValidPosition_def)
      next
        case c: False
        with coll dr step(3) have ds: "distinct (body s')" by simp
        have v: "isValidPosition (board g) (getHead s')" using True hd by simp
        show ?thesis
        proof (cases "h' = position (food g)")
          case False
          with sub fb have "position (food g) \<notin> set (body s')"
            using step(3) by auto
          with update_plain [OF run step(2) v c, of rnd] False hd upd inv step(3) ds show ?thesis
            by (auto simp add: game_inv_def isValidPosition_def)
        next
          case e: True
          then have e': "getHead s' = position (food g)" using hd by simp
          note u = update_eat [OF run step(2) v c e', of rnd]
          from upd u obtain f n where
            gf: "generateFood rnd (width (board g)) (height (board g)) (body s')
                   (food g, randCalls g) = Some (Inr (f, n))"
            and g': "g' = (updateGameSpeed (g\<lparr>foodEaten := False, snake := s'\<rparr>))
                             \<lparr>score := score g + foodValue (food g),
                              snake := grow s',
                              foodEaten := True,
                              oldFoodPos := position (food g),
                              food := f,
                              randCalls := n\<rparr>"
            by (auto split: option.splits sum.splits prod.splits)
          from generateFood_Some [OF gf wh] have
            f: "position f \<notin> set (body s')"
               "isValidPosition \<lparr>width = width (board g), height = height (board g)\<rparr> (position f)"
               "symbol f = CHR ''*'' \<and> foodValue f = 10 \<or> symbol f = CHR ''$'' \<and> foodValue f = 50"
            by auto
          from inv have "0 \<le> score g + foodValue (food g)"
            by (auto simp add: game_inv_def)
          with f g' inv ds step(3) show ?thesis
            by (auto simp add: game_inv_def isValidPosition_def grow_def)
        qed
      qed
    qed
  qed
qed

lemma inv_ctor:
  assumes "Game_ctor rnd = Some (Inr g)"
  shows "game_inv g"
proof -
  from assms obtain f n where
    gf: "generateFood rnd 30 20 (body Snake_ctor) (Food_ctor, 0) = Some (Inr (f, n))"
    and g: "food g = f" "snake g = Snake_ctor" "board g = GameBoard_ctor 30 20"
           "score g = 0" "\<not> gameOver g"
    by (auto simp add: Game_ctor_def loadHighScore_def getBody_def GameBoard_ctor_def Let_def
             split: option.splits sum.splits prod.splits)
  from generateFood_Some [OF gf] have
    "position f \<notin> set (body Snake_ctor)"
    "isValidPosition \<lparr>width = 30, height = 20\<rparr> (position f)"
    "symbol f = CHR ''*'' \<and> foodValue f = 10 \<or> symbol f = CHR ''$'' \<and> foodValue f = 50"
    by auto
  with g show ?thesis
    by (auto simp add: game_inv_def isValidPosition_def GameBoard_ctor_def Snake_ctor_body)
qed

lemma processInput_fields [simp]:
  "body (snake (processInput key key2 g)) = body (snake g)"
  "growing (snake (processInput key key2 g)) = growing (snake g)"
  "food (processInput key key2 g) = food g"
  "board (processInput key key2 g) = board g"
  "score (processInput key key2 g) = score g"
  "gameOver (processInput key key2 g) = gameOver g"
  "randCalls (processInput key key2 g) = randCalls g"
  by (simp_all add: processInput_def Let_def split: option.splits)

lemma inv_input: "game_inv g \<Longrightarrow> game_inv (processInput key key2 g)"
  by (simp add: game_inv_def)

lemma inv_restart:
  assumes "0 < width (board g)" and "0 < height (board g)"
    and "restart rnd g = Some (Inr g')"
  shows "game_inv g'"
proof -
  from assms(3) obtain f n where
    gf: "generateFood rnd (width (board g)) (height (board g)) (body (reset (snake g)))
           (food g, randCalls g) = Some (Inr (f, n))"
    and g: "food g' = f" "snake g' = reset (snake g)" "board g' = board g"
           "score g' = 0" "\<not> gameOver g'"
    by (auto simp add: restart_def getBody_def Let_def
             split: option.splits sum.splits prod.splits)
  from generateFood_Some [OF gf assms(1,2)] have
    "position f \<notin> set (body (reset (snake g)))"
    "isValidPosition \<lparr>width = width (board g), height = height (board g)\<rparr> (position f)"
    "symbol f = CHR ''*'' \<and> foodValue f = 10 \<or> symbol f = CHR ''$'' \<and> foodValue f = 50"
    by auto
  with g assms(1,2) show ?thesis
    by (auto simp add: game_inv_def isValidPosition_def reset_body)
qed

lemma inv_over:
  assumes "game_inv g" and "handleGameOver rnd choice g = Some (Inr g')"
  shows "game_inv g'"
proof (cases "gameOver g \<and> tolower choice = 114")
  case True
  with assms(2) have "restart rnd (saveHighScore g) = Some (Inr g')"
    by (simp add: handleGameOver_def Let_def)
  moreover have "board (saveHighScore g) = board g"
    by (simp add: saveHighScore_def)
  ultimately show ?thesis
    using assms(1) inv_restart [of "saveHighScore g" rnd g'] by (simp add: game_inv_def)
next
  case False
  with assms show ?thesis
    by (auto simp add: handleGameOver_def Let_def game_inv_def saveHighScore_def
             split: if_splits)
qed

lemma reachable_inv: "reachable rnd g \<Longrightarrow> game_inv g"
proof (induction rule: reachable.induct)
  case (start g)
  then show ?case by (rule inv_ctor)
next
  case (input g key key2)
  then show ?case by (simp add: inv_input)
next
  case (tick g g')
  then show ?case using inv_update by blast
next
  case (over g choice g')
  then show ?case using inv_over by blast
qed

text \<open>
  The cells of the snake stay within one step of the board, so that no step of \<^verbatim>\<open>move\<close>
  in a game comes near the bounds of \<^verbatim>\<open>int\<close>.
\<close>

lemma in_set_tl: "p \<in> set (tl xs) \<Longrightarrow> p \<in> set xs"
  by (cases xs) simp_all

lemma move_body_cases:
  assumes "move s = Inr s'"
  shows "s' = s \<or>
         (\<exists>hx hy rest h'.
            body s = Position hx hy # rest \<and>
            h' \<in> {Position hx (hy - 1), Position hx (hy + 1), Position (hx - 1) hy, Position (hx + 1) hy} \<and>
            body s' = h' # (if growing s then body s else butlast (body s)))"
proof (cases "direction s = STOP")
  case True
  with assms show ?thesis by (simp add: move_STOP)
next
  case False
  show ?thesis
  proof (cases "body s")
    case Nil
    with False assms show ?thesis by (simp add: move_Nil)
  next
    case (Cons h rest)
    obtain hx hy where h: "h = Position hx hy" by (cases h)
    with Cons have b: "body s = Position hx hy # rest" by simp
    from move_Cons [OF False b] assms b False show ?thesis
      by (cases "direction s") auto
  qed
qed

lemma cells_update:
  assumes inv: "cells_inv g" and upd: "update rnd g = Some (Inr g')"
  shows "cells_inv g'"
proof (cases "gameOver g \<or> paused g")
  case True
  with upd inv show ?thesis by (simp add: update_idle)
next
  case False
  then have run: "\<not> gameOver g" "\<not> paused g" by simp_all
  with inv have wh: "width (board g) = 30" "height (board g) = 20"
    and old: "\<forall>p\<in>set (body (snake g)). isValidPosition (board g) p"
    by (simp_all add: cells_inv_def)
  show ?thesis
  proof (cases "move (snake g)")
    case (Inl e)
    with run upd show ?thesis by (simp add: update_move_error)
  next
    case (Inr s')
    have sub: "set (if growing (snake g) then body (snake g) else butlast (body (snake g)))
                 \<subseteq> set (body (snake g))"
      by (auto dest: in_set_butlastD)
    have tailv: "\<forall>p\<in>set (if growing (snake g) then body (snake g)
                            else butlast (body (snake g))). isValidPosition (board g) p"
      using old sub by blast
    have "(\<forall>p\<in>set (body s').
             - 1 \<le> pos_x p \<and> pos_x p \<le> 30 \<and> - 1 \<le> pos_y p \<and> pos_y p \<le> 20) \<and>
          (\<forall>p\<in>set (tl (body s')). isValidPosition (board g) p)"
      using move_body_cases [OF Inr]
    proof (elim disjE exE conjE)
      assume "s' = snake g"
      with old wh show ?thesis
        by (auto simp add: isValidPosition_def dest: in_set_tl)
    next
      fix hx hy rest h'
      assume b: "body (snake g) = Position hx hy # rest"
        and h': "h' \<in> {Position hx (hy - 1), Position hx (hy + 1),
                       Position (hx - 1) hy, Position (hx + 1) hy}"
        and b': "body s' = h' # (if growing (snake g) then body (snake g)
                                 else butlast (body (snake g)))"
      from b old wh have "0 \<le> hx" "hx < 30" "0 \<le> hy" "hy < 20"
        by (simp_all add: isValidPosition_def)
      with h' have hn: "- 1 \<le> pos_x h' \<and> pos_x h' \<le> 30 \<and> - 1 \<le> pos_y h' \<and> pos_y h' \<le> 20"
        by auto
      from tailv wh have "\<forall>p\<in>set (if growing (snake g) then body (snake g)
                            else butlast (body (snake g))).
             - 1 \<le> pos_x p \<and> pos_x p \<le> 30 \<and> - 1 \<le> pos_y p \<and> pos_y p \<le> 20"
        by (simp add: isValidPosition_def) force
      with hn tailv b' show ?thesis by simp
    qed
    then have near: "\<forall>p\<in>set (body s').
                  - 1 \<le> pos_x p \<and> pos_x p \<le> 30 \<and> - 1 \<le> pos_y p \<and> pos_y p \<le> 20"
      and rest: "\<forall>p\<in>set (tl (body s')). isValidPosition (board g) p"
      by simp_all
    have all: "isValidPosition (board g) (getHead s') \<Longrightarrow>
                 \<forall>p\<in>set (body s'). isValidPosition (board g) p"
    proof (cases "body s'")
      case Nil
      then show ?thesis by simp
    next
      case (Cons h t)
      assume "isValidPosition (board g) (getHead s')"
      with Cons rest show ?thesis by (simp add: getHead_def)
    qed
    show ?thesis
    proof (cases "isValidPosition (board g) (getHead s')")
      case False
      from update_wall [OF run Inr False, of rnd] upd near wh show ?thesis
        by (auto simp add: cells_inv_def)
    next
      case v: True
      show ?thesis
      proof (cases "checkSelfCollision s'")
        case True
        from update_self [OF run Inr v True, of rnd] upd near wh show ?thesis
          by (auto simp add: cells_inv_def)
      next
        case c: False
        show ?thesis
        proof (cases "getHead s' = position (food g)")
          case False
          from update_plain [OF run Inr v c False, of rnd] upd near wh all [OF v] show ?thesis
            by (auto simp add: cells_inv_def isValidPosition_def)
        next
          case True
          from update_eat [OF run Inr v c True, of rnd] upd near wh all [OF v] show ?thesis
            by (auto simp add: cells_inv_def isValidPosition_def grow_def
                     split: option.splits sum.splits prod.splits)
        qed
      qed
    qed
  qed
qed

lemma cells_ctor:
  assumes "Game_ctor rnd = Some (Inr g)"
  shows "cells_inv g"
proof -
  from assms have "snake g = Snake_ctor" "board g = GameBoard_ctor 30 20"
    by (auto simp add: Game_ctor_def loadHighScore_def Let_def
             split: option.splits sum.splits prod.splits)
  then show ?thesis
    by (simp add: cells_inv_def Snake_ctor_body GameBoard_ctor_def isValidPosition_def)
qed

lemma cells_input: "cells_inv g \<Longrightarrow> cells_inv (processInput key key2 g)"
  by (simp add: cells_inv_def)

lemma cells_over:
  assumes "cells_inv g" and "handleGameOver rnd choice g = Some (Inr g')"
  shows "cells_inv g'"
proof (cases "gameOver g \<and> tolower choice = 114")
  case True
  with assms(2) have "restart rnd (saveHighScore g) = Some (Inr g')"
    by (simp add: handleGameOver_def Let_def)
  then have "snake g' = reset (snake (saveHighScore g))" "board g' = board (saveHighScore g)"
    by (auto simp add: restart_def Let_def split: option.splits sum.splits prod.splits)
  moreover have "board (saveHighScore g) = board g"
    by (simp add: saveHighScore_def)
  ultimately show ?thesis
    using assms(1) by (simp add: cells_inv_def reset_body isValidPosition_def)
next
  case False
  with assms show ?thesis
    by (auto simp add: handleGameOver_def Let_def cells_inv_def saveHighScore_def
             split: if_splits)
qed

lemma reachable_cells: "reachable rnd g \<Longrightarrow> cells_inv g"
proof (induction rule: reachable.induct)
  case (start g)
  then show ?case by (rule cells_ctor)
next
  case (input g key key2)
  then show ?case by (simp add: cells_input)
next
  case (tick g g')
  then show ?case using cells_update by blast
next
  case (over g choice g')
  then show ?case using cells_over by blast
qed

lemma reachable_head_in_range:
  assumes "reachable rnd g" and "\<not> gameOver g" and "body (snake g) = Position hx hy # rest"
  shows "0 \<le> hx \<and> hx \<le> 29 \<and> 0 \<le> hy \<and> hy \<le> 19"
  using reachable_cells [OF assms(1)] assms(2,3)
  by (simp add: cells_inv_def isValidPosition_def)


section \<open>Scenarios\<close>

lemma scenario_ctor: "Game_ctor rnd_scenario = Some (Inr scenario_start)"
  by code_simp

lemma scenario_start_reachable: "reachable rnd_scenario scenario_start"
  by (rule reachable.start) (rule scenario_ctor)

lemma scenario_run_reachable: "reachable rnd_scenario scenario_run"
  unfolding scenario_run_def by (rule reachable.input) (rule scenario_start_reachable)

lemma scenario_run_eq:
  "scenario_run =
     (fixture_game [Position 10 10, Position 9 10, Position 8 10] RIGHT (Position 11 10))
       \<lparr>randCalls := 3\<rparr>"
  by code_simp

lemma scenario_move:
  "move (snake scenario_run) =
     Inr \<lparr>body = [Position 11 10, Position 10 10, Position 9 10],
          previousBody = [Position 10 10, Position 9 10, Position 8 10],
          direction = RIGHT, growing = False\<rparr>"
  by code_simp

lemma scenario_update:
  "update rnd_scenario scenario_run =
     Some (Inr \<lparr>snake = \<lparr>body = [Position 11 10, Position 10 10, Position 9 10],
                         previousBody = [Position 10 10, Position 9 10, Position 8 10],
                         direction = RIGHT, growing = True\<rparr>,
                food = \<lparr>position = Position 11 9, symbol = CHR ''*'', color = 12,
                        foodValue = 10\<rparr>,
                board = \<lparr>width = 30, height = 20\<rparr>, score = 10, highScore = 0,
                gameOver = False, gameRunning = True, paused = False,
                gameSpeed = 185, currentLevel = ''Level 1'',
                oldFoodPos = Position 11 10, foodEaten = True, randCalls = 6\<rparr>)"
  by code_simp

lemma scenario_restart:
  "restart rnd_scenario scenario_run =
     Some (Inr \<lparr>snake = \<lparr>body = [Position 10 10, Position 9 10, Position 8 10],
                         previousBody = [Position 10 10, Position 9 10, Position 8 10],
                         direction = STOP, growing = False\<rparr>,
                food = \<lparr>position = Position 11 9, symbol = CHR ''*'', color = 12,
                        foodValue = 10\<rparr>,
                board = \<lparr>width = 30, height = 20\<rparr>, score = 0, highScore = 0,
                gameOver = False, gameRunning = True, paused = False,
                gameSpeed = 150, currentLevel = ''Level 1'',
                oldFoodPos = Position 11 10, foodEaten = False, randCalls = 6\<rparr>)"
  by code_simp

lemma scenario_generateFood:
  "generateFood rnd_scenario 30 20 [Position 11 10, Position 10 10, Position 9 10] (Food_ctor, 0) =
     Some (Inr (\<lparr>position = Position 1 11, symbol = CHR ''*'', color = 12, foodValue = 10\<rparr>, 5))"
  by code_simp

lemma after_tick_reachable:
  assumes "reachable rnd g"
  shows "reachable rnd (after_tick rnd key g)"
proof (cases "update rnd (processInput (Some key) 0 g)")
  case None
  with assms show ?thesis by (simp add: after_tick_def)
next
  case (Some r)
  show ?thesis
  proof (cases r)
    case (Inl e)
    with Some assms show ?thesis by (simp add: after_tick_def)
  next
    case (Inr g')
    have "reachable rnd (processInput (Some key) 0 g)"
      using assms by (rule reachable.input)
    then have "reachable rnd g'"
      using Some Inr by (intro reachable.tick [of rnd _ g']) simp_all
    with Some Inr show ?thesis by (simp add: after_tick_def)
  qed
qed

lemma scenario_coiled_reachable: "reachable rnd_scenario scenario_coiled"
  unfolding scenario_coiled_def
  by (intro reachable.input after_tick_reachable scenario_start_reachable)

lemma scenario_coiled_state:
  "\<not> gameOver scenario_coiled" "\<not> paused scenario_coiled"
  "body (snake scenario_coiled) =
     [Position 10 9, Position 11 9, Position 11 10, Position 10 10, Position 9 10]"
  by code_simp+

lemma scenario_coiled_move:
  "move (snake scenario_coiled) =
     Inr \<lparr>body = [Position 10 10, Position 10 9, Position 11 9, Position 11 10, Position 10 10],
          previousBody = [Position 10 9, Position 11 9, Position 11 10, Position 10 10, Position 9 10],
          direction = DOWN, growing = False\<rparr>"
  by code_simp



lemma foldl_after_tick_reachable:
  "reachable rnd g \<Longrightarrow> reachable rnd (foldl (\<lambda>g key. after_tick rnd key g) g keys)"
  by (induction keys arbitrary: g) (simp_all add: after_tick_reachable)

lemma corner_ctor: "Game_ctor rnd_zero = Some (Inr corner_start)"
  by code_simp

lemma scenario_corner_reachable: "reachable rnd_zero scenario_corner"
  unfolding scenario_corner_def
  by (intro foldl_after_tick_reachable reachable.start corner_ctor)

lemma scenario_corner_state:
  "\<not> gameOver scenario_corner" "\<not> paused scenario_corner"
  "board scenario_corner = \<lparr>width = 30, height = 20\<rparr>"
  "position (food scenario_corner) = Position 0 0"
  "move (snake scenario_corner) =
     Inr \<lparr>body = [Position 0 0, Position 1 0, Position 2 0],
          previousBody = [Position 1 0, Position 2 0, Position 3 0],
          direction = LEFT, growing = False\<rparr>"
  by code_simp+

section \<open>Eating\<close>

lemma eat_tick:
  assumes inv: "game_inv g" and run: "\<not> gameOver g" "\<not> paused g"
    and mv: "move (snake g) = Inr s'" and eat: "getHead s' = position (food g)"
  shows "isValidPosition (board g) (getHead s')" and "\<not> checkSelfCollision s'"
    and "direction s' \<noteq> STOP" and "body s' \<noteq> []"
proof -
  from inv have ne: "body (snake g) \<noteq> []"
    and fv: "isValidPosition (board g) (position (food g))"
    and fb: "position (food g) \<notin> set (body (snake g))"
    by (simp_all add: game_inv_def)
  from fv eat show "isValidPosition (board g) (getHead s')" by simp
  from ne have "\<not> checkSelfCollision s' \<and> direction s' \<noteq> STOP \<and> body s' \<noteq> []"
  proof (cases rule: move_cases)
    case stop
    with mv have "s' = snake g" by simp
    with ne have "getHead s' \<in> set (body (snake g))"
      by (cases "body (snake g)") (simp_all add: getHead_def)
    with eat fb show ?thesis by simp
  next
    case (step h' s'')
    with mv have s: "s'' = s'" by simp
    from step(3) s eat have h: "h' = position (food g)"
      by (simp add: getHead_def)
    have "set (if growing (snake g) then body (snake g) else butlast (body (snake g)))
            \<subseteq> set (body (snake g))"
      by (auto dest: in_set_butlastD)
    with fb h have "h' \<notin> set (if growing (snake g) then body (snake g) else butlast (body (snake g)))"
      by blast
    with step s show ?thesis
      by (simp add: checkSelfCollision_iff)
  qed
  then show "\<not> checkSelfCollision s'" and "direction s' \<noteq> STOP" and "body s' \<noteq> []"
    by simp_all
qed

lemma eat_tick_result:
  assumes inv: "game_inv g" and run: "\<not> gameOver g" "\<not> paused g"
    and mv: "move (snake g) = Inr s'" and eat: "getHead s' = position (food g)"
    and upd: "update rnd g = Some r"
  shows "\<exists>f k. r = Inr ((updateGameSpeed (g\<lparr>foodEaten := False, snake := s'\<rparr>))
                             \<lparr>score := score g + foodValue (food g),
                              snake := grow s',
                              foodEaten := True,
                              oldFoodPos := position (food g),
                              food := f,
                              randCalls := randCalls g + 2 * k + 3\<rparr>) \<and>
           position f \<notin> set (body s') \<and>
           isValidPosition (board g) (position f)"
proof -
  note t = eat_tick [OF inv run mv eat]
  note u = update_eat [OF run mv t(1) t(2) eat, of rnd]
  from inv have wh: "0 < width (board g)" "0 < height (board g)"
    by (simp_all add: game_inv_def)
  from upd u obtain r' where
    gf: "generateFood rnd (width (board g)) (height (board g)) (body s')
           (food g, randCalls g) = Some r'"
    by (auto split: option.splits)
  from generateFood_Some [OF gf wh] obtain f k where
    f: "r' = Inr (f, randCalls g + 2 * k + 3)" "position f \<notin> set (body s')"
       "isValidPosition \<lparr>width = width (board g), height = height (board g)\<rparr> (position f)"
    by auto
  from f(3) have "isValidPosition (board g) (position f)"
    by (simp add: isValidPosition_def)
  with upd u gf f(1,2) show ?thesis
    by auto
qed

text \<open>
  Claim C3. For every board with cells and every body, when \<^verbatim>\<open>generateFood\<close> returns,
  the food is on the board and not on a cell of the body it was given. So it is for the
  first food of a game, for the food that follows an eaten one (the body given is the
  snake's new body) and for the food of a restart.
\<close>

theorem generateFood_spec:
  "(0 < w \<and> 0 < h \<and> generateFood rnd w h snakeBody (f, n) = Some r \<longrightarrow>
      (\<exists>f' n'. r = Inr (f', n') \<and>
         isValidPosition \<lparr>width = w, height = h\<rparr> (position f') \<and>
         position f' \<notin> set snakeBody)) \<and>
   (Game_ctor rnd = Some r0 \<longrightarrow>
      (\<exists>g0. r0 = Inr g0 \<and>
         isValidPosition (board g0) (position (food g0)) \<and>
         position (food g0) \<notin> set (body (snake g0)))) \<and>
   (reachable rnd g \<and> \<not> gameOver g \<and> \<not> paused g \<and> move (snake g) = Inr s' \<and>
    getHead s' = position (food g) \<and> update rnd g = Some r1 \<longrightarrow>
      (\<exists>g1. r1 = Inr g1 \<and> body (snake g1) = body s' \<and>
         isValidPosition (board g1) (position (food g1)) \<and>
         position (food g1) \<notin> set (body (snake g1)))) \<and>
   (reachable rnd g \<and> restart rnd g = Some r2 \<longrightarrow>
      (\<exists>g2. r2 = Inr g2 \<and> body (snake g2) = body (reset (snake g)) \<and>
         isValidPosition (board g2) (position (food g2)) \<and>
         position (food g2) \<notin> set (body (snake g2))))"
proof (intro conjI impI)
  assume "0 < w \<and> 0 < h \<and> generateFood rnd w h snakeBody (f, n) = Some r"
  then have "generateFood rnd w h snakeBody (f, n) = Some r" "0 < w" "0 < h" by simp_all
  from generateFood_Some [OF this]
  show "\<exists>f' n'. r = Inr (f', n') \<and>
         isValidPosition \<lparr>width = w, height = h\<rparr> (position f') \<and>
         position f' \<notin> set snakeBody"
    by blast
next
  assume c: "Game_ctor rnd = Some r0"
  then obtain g0 where r0: "r0 = Inr g0"
  proof (cases r0)
    case (Inl e)
    with c have "generateFood rnd 30 20 (body Snake_ctor) (Food_ctor, 0) = Some (Inl e)"
      by (auto simp add: Game_ctor_def loadHighScore_def getBody_def GameBoard_ctor_def Let_def
               split: option.splits sum.splits prod.splits)
    from generateFood_Some [OF this] show ?thesis by simp
  next
    case (Inr g0)
    then show ?thesis by (rule that)
  qed
  with c have "game_inv g0" by (simp add: inv_ctor)
  with r0 show "\<exists>g0. r0 = Inr g0 \<and>
         isValidPosition (board g0) (position (food g0)) \<and>
         position (food g0) \<notin> set (body (snake g0))"
    by (simp add: game_inv_def)
next
  assume a: "reachable rnd g \<and> \<not> gameOver g \<and> \<not> paused g \<and> move (snake g) = Inr s' \<and>
    getHead s' = position (food g) \<and> update rnd g = Some r1"
  then have inv: "game_inv g" using reachable_inv by blast
  from a eat_tick_result [OF inv, of s' rnd r1]
  show "\<exists>g1. r1 = Inr g1 \<and> body (snake g1) = body s' \<and>
         isValidPosition (board g1) (position (food g1)) \<and>
         position (food g1) \<notin> set (body (snake g1))"
    by (auto simp add: grow_def isValidPosition_def)
next
  assume a: "reachable rnd g \<and> restart rnd g = Some r2"
  then have inv: "game_inv g" using reachable_inv by blast
  then have wh: "0 < width (board g)" "0 < height (board g)"
    by (simp_all add: game_inv_def)
  from a obtain g2 where r2: "r2 = Inr g2"
  proof (cases r2)
    case (Inl e)
    with a have "generateFood rnd (width (board g)) (height (board g)) (body (reset (snake g)))
           (food g, randCalls g) = Some (Inl e)"
      by (auto simp add: restart_def getBody_def Let_def
               split: option.splits sum.splits prod.splits)
    from generateFood_Some [OF this wh] show ?thesis by simp
  next
    case (Inr g2)
    then show ?thesis by (rule that)
  qed
  with a wh have "game_inv g2" using inv_restart by blast
  moreover from a r2 have "snake g2 = reset (snake g)"
    by (auto simp add: restart_def getBody_def Let_def
             split: option.splits sum.splits prod.splits)
  ultimately show "\<exists>g2. r2 = Inr g2 \<and> body (snake g2) = body (reset (snake g)) \<and>
         isValidPosition (board g2) (position (food g2)) \<and>
         position (food g2) \<notin> set (body (snake g2))"
    using r2 by (simp add: game_inv_def)
qed

theorem generateFood_spec_witness:
  "(\<exists>f' n'. generateFood rnd_scenario 30 20 [Position 11 10, Position 10 10, Position 9 10]
               (Food_ctor, 0) = Some (Inr (f', n')) \<and>
            isValidPosition \<lparr>width = 30, height = 20\<rparr> (position f') \<and>
            position f' \<notin> set [Position 11 10, Position 10 10, Position 9 10]) \<and>
   (\<exists>g0. Game_ctor rnd_scenario = Some (Inr g0) \<and>
         isValidPosition (board g0) (position (food g0)) \<and>
         position (food g0) \<notin> set (body (snake g0))) \<and>
   (\<exists>g1. update rnd_scenario scenario_run = Some (Inr g1) \<and>
         isValidPosition (board g1) (position (food g1)) \<and>
         position (food g1) \<notin> set (body (snake g1))) \<and>
   (\<exists>g2. restart rnd_scenario scenario_run = Some (Inr g2) \<and>
         isValidPosition (board g2) (position (food g2)) \<and>
         position (food g2) \<notin> set (body (snake g2)))"
proof -
  let ?s = "\<lparr>body = [Position 11 10, Position 10 10, Position 9 10],
             previousBody = [Position 10 10, Position 9 10, Position 8 10],
             direction = RIGHT, growing = False\<rparr>"
  let ?g1 = "\<lparr>snake = \<lparr>body = [Position 11 10, Position 10 10, Position 9 10],
                         previousBody = [Position 10 10, Position 9 10, Position 8 10],
                         direction = RIGHT, growing = True\<rparr>,
                food = \<lparr>position = Position 11 9, symbol = CHR ''*'', color = 12,
                        foodValue = 10\<rparr>,
                board = \<lparr>width = 30, height = 20\<rparr>, score = 10, highScore = 0,
                gameOver = False, gameRunning = True, paused = False,
                gameSpeed = 185, currentLevel = ''Level 1'',
                oldFoodPos = Position 11 10, foodEaten = True, randCalls = 6\<rparr>"
  let ?g2 = "\<lparr>snake = \<lparr>body = [Position 10 10, Position 9 10, Position 8 10],
                         previousBody = [Position 10 10, Position 9 10, Position 8 10],
                         direction = STOP, growing = False\<rparr>,
                food = \<lparr>position = Position 11 9, symbol = CHR ''*'', color = 12,
                        foodValue = 10\<rparr>,
                board = \<lparr>width = 30, height = 20\<rparr>, score = 0, highScore = 0,
                gameOver = False, gameRunning = True, paused = False,
                gameSpeed = 150, currentLevel = ''Level 1'',
                oldFoodPos = Position 11 10, foodEaten = False, randCalls = 6\<rparr>"
  have st: "\<not> gameOver scenario_run" "\<not> paused scenario_run"
    "position (food scenario_run) = Position 11 10"
    by (simp_all add: scenario_run_eq fixture_game_def)
  have h: "getHead ?s = Position 11 10"
    by (simp add: getHead_def)
  from generateFood_spec [of 30 20 rnd_scenario "[Position 11 10, Position 10 10, Position 9 10]"
      Food_ctor 0
      "Inr (\<lparr>position = Position 1 11, symbol = CHR ''*'', color = 12, foodValue = 10\<rparr>, 5)"
      "Inr scenario_start" scenario_run ?s "Inr ?g1" "Inr ?g2"]
    scenario_generateFood scenario_ctor scenario_run_reachable st scenario_move h
    scenario_update scenario_restart
  show ?thesis
    by (simp add: reset_body)
qed




text \<open>
  Claim C7. In every reachable game that is not over, the body is not empty, the head is
  its element 0, and no cell occurs twice in it. The body has exactly three cells in a
  new snake, after \<^verbatim>\<open>reset\<close>, in a new game and after \<^verbatim>\<open>restart\<close>. A tick of a running
  game whose move leaves a cell twice in the body always ends the game.
\<close>

theorem snake_body_invariant:
  "(reachable rnd g \<and> \<not> gameOver g \<longrightarrow>
      body (snake g) \<noteq> [] \<and> getHead (snake g) = body (snake g) ! 0 \<and>
      distinct (body (snake g))) \<and>
   length (body Snake_ctor) = 3 \<and>
   length (body (reset s)) = 3 \<and>
   (Game_ctor rnd = Some (Inr g0) \<longrightarrow> length (body (snake g0)) = 3) \<and>
   (restart rnd g = Some (Inr g1) \<longrightarrow> length (body (snake g1)) = 3) \<and>
   (reachable rnd g \<and> \<not> gameOver g \<and> \<not> paused g \<and> move (snake g) = Inr s' \<and>
    \<not> distinct (body s') \<longrightarrow>
      (\<exists>g'. update rnd g = Some (Inr g') \<and> gameOver g' \<and> snake g' = s'))"
proof (intro conjI impI)
  assume "reachable rnd g \<and> \<not> gameOver g"
  then have "game_inv g" "\<not> gameOver g" using reachable_inv by blast+
  then show "body (snake g) \<noteq> []" "getHead (snake g) = body (snake g) ! 0"
    "distinct (body (snake g))"
    by (simp_all add: game_inv_def getHead_def)
next
  show "length (body Snake_ctor) = 3" by (simp add: Snake_ctor_body)
  show "length (body (reset s)) = 3" by (simp add: reset_body)
next
  assume "Game_ctor rnd = Some (Inr g0)"
  then have "snake g0 = Snake_ctor"
    by (auto simp add: Game_ctor_def loadHighScore_def Let_def
             split: option.splits sum.splits prod.splits)
  then show "length (body (snake g0)) = 3" by (simp add: Snake_ctor_body)
next
  assume "restart rnd g = Some (Inr g1)"
  then have "snake g1 = reset (snake g)"
    by (auto simp add: restart_def Let_def split: option.splits sum.splits prod.splits)
  then show "length (body (snake g1)) = 3" by (simp add: reset_body)
next
  assume a: "reachable rnd g \<and> \<not> gameOver g \<and> \<not> paused g \<and> move (snake g) = Inr s' \<and>
    \<not> distinct (body s')"
  then have inv: "game_inv g" and run: "\<not> gameOver g" "\<not> paused g"
    and mv: "move (snake g) = Inr s'" and nd: "\<not> distinct (body s')"
    using reachable_inv by blast+
  from inv run have ne: "body (snake g) \<noteq> []" and d: "distinct (body (snake g))"
    by (simp_all add: game_inv_def)
  from ne have c: "checkSelfCollision s'"
  proof (cases rule: move_cases)
    case stop
    with mv d nd show ?thesis by simp
  next
    case (step h' s'')
    with mv have b: "body s' = h' # (if growing (snake g) then body (snake g)
                                     else butlast (body (snake g)))"
      by simp
    have "distinct (if growing (snake g) then body (snake g) else butlast (body (snake g)))"
      using d by (simp add: distinct_butlast)
    with nd b show ?thesis
      by (simp add: checkSelfCollision_iff)
  qed
  have "update rnd g =
           Some (Inr ((updateGameSpeed (g\<lparr>foodEaten := False, snake := s'\<rparr>))\<lparr>gameOver := True\<rparr>))"
  proof (cases "isValidPosition (board g) (getHead s')")
    case True
    from update_self [OF run mv True c] show ?thesis .
  next
    case False
    from update_wall [OF run mv False] show ?thesis .
  qed
  then show "\<exists>g'. update rnd g = Some (Inr g') \<and> gameOver g' \<and> snake g' = s'"
    by simp
qed

lemma scenario_coiled_restart:
  "restart rnd_scenario scenario_coiled =
     Some (Inr (corner_start\<lparr>oldFoodPos := Position 11 9, randCalls := 12\<rparr>))"
  by code_simp

theorem snake_body_invariant_witness:
  "body (snake scenario_coiled) \<noteq> [] \<and>
   getHead (snake scenario_coiled) = body (snake scenario_coiled) ! 0 \<and>
   distinct (body (snake scenario_coiled)) \<and>
   length (body (snake scenario_start)) = 3 \<and>
   length (body (snake (corner_start\<lparr>oldFoodPos := Position 11 9, randCalls := 12\<rparr>))) = 3 \<and>
   (\<exists>g'. update rnd_scenario scenario_coiled = Some (Inr g') \<and> gameOver g' \<and>
         body (snake g') =
           [Position 10 10, Position 10 9, Position 11 9, Position 11 10, Position 10 10])"
proof -
  let ?s = "\<lparr>body = [Position 10 10, Position 10 9, Position 11 9, Position 11 10, Position 10 10],
             previousBody = [Position 10 9, Position 11 9, Position 11 10, Position 10 10, Position 9 10],
             direction = DOWN, growing = False\<rparr>"
  have nd: "\<not> distinct (body ?s)" by simp
  note t = snake_body_invariant [of rnd_scenario scenario_coiled Snake_ctor scenario_start
      "corner_start\<lparr>oldFoodPos := Position 11 9, randCalls := 12\<rparr>" ?s]
  from t scenario_coiled_reachable scenario_coiled_state(1,2) scenario_coiled_move nd
    scenario_ctor scenario_coiled_restart
  show ?thesis
    by auto
qed

section \<open>Termination of the sampling loop\<close>

text \<open>
  Claim C9. With a fair generator, on a board with cells of which the body leaves at least
  one free, \<^verbatim>\<open>generateFood\<close> returns: the loop ends after finitely many rounds, at the
  first cell it picks that is off the body.
\<close>

theorem generateFood_terminates:
  assumes "fair rnd w h" and "0 < w" and "0 < h"
    and "\<exists>p. isValidPosition \<lparr>width = w, height = h\<rparr> p \<and> p \<notin> set snakeBody"
  shows "\<exists>f' k. generateFood rnd w h snakeBody (f, n) = Some (Inr (f', n + 2 * k + 3)) \<and>
           position f' = draw rnd w h (n + 2 * k) \<and>
           position f' \<notin> set snakeBody \<and>
           (\<forall>j<k. draw rnd w h (n + 2 * j) \<in> set snakeBody)"
proof -
  from assms(2,3) have ne: "w \<noteq> 0" "h \<noteq> 0" by simp_all
  from fair_offers_free_cell [OF assms(1,4)]
  have "\<exists>k. draw rnd w h (n + 2 * k) \<notin> set snakeBody" .
  from generateFood_loop_returns [OF ne this] obtain y where
    y: "generateFood_loop rnd w h snakeBody n = Some y"
    by blast
  from generateFood_loop_Some [OF y ne] obtain k where
    k: "y = Inr (draw rnd w h (n + 2 * k), n + 2 * k + 2)"
       "draw rnd w h (n + 2 * k) \<notin> set snakeBody"
       "\<forall>j<k. draw rnd w h (n + 2 * j) \<in> set snakeBody"
    by blast
  show ?thesis
  proof (cases "int (rnd (n + 2 * k + 2)) smod 10 = 0")
    case True
    with y k show ?thesis
      by (intro exI [of _ "f\<lparr>position := draw rnd w h (n + 2 * k), symbol := CHR ''$'',
                              color := LIGHT_YELLOW, foodValue := 50\<rparr>"] exI [of _ k])
         (simp add: generateFood_def)
  next
    case False
    with y k show ?thesis
      by (intro exI [of _ "f\<lparr>position := draw rnd w h (n + 2 * k), symbol := CHR ''*'',
                              color := LIGHT_RED, foodValue := 10\<rparr>"] exI [of _ k])
         (simp add: generateFood_def)
  qed
qed

lemma fair_generateFood:
  "generateFood rnd_fair 30 20 [Position 0 0, Position 1 0, Position 2 0] (Food_ctor, 0) =
     Some (Inr (\<lparr>position = Position 3 0, symbol = CHR ''*'', color = 12, foodValue = 10\<rparr>, 9))"
  by code_simp

theorem generateFood_terminates_witness:
  "\<exists>f' k. generateFood rnd_fair 30 20 [Position 0 0, Position 1 0, Position 2 0] (Food_ctor, 0) =
             Some (Inr (f', 0 + 2 * k + 3)) \<and>
          position f' = Position 3 0 \<and> k = 3"
proof -
  have free: "\<exists>p. isValidPosition \<lparr>width = 30, height = 20\<rparr> p \<and>
                p \<notin> set [Position 0 0, Position 1 0, Position 2 0]"
    by (intro exI [of _ "Position 5 5"]) (simp add: isValidPosition_def)
  from generateFood_terminates [OF fair_rnd_fair _ _ free, of Food_ctor 0]
  obtain f' k where
    r: "generateFood rnd_fair 30 20 [Position 0 0, Position 1 0, Position 2 0] (Food_ctor, 0) =
          Some (Inr (f', 0 + 2 * k + 3))"
    by auto
  with fair_generateFood have "f' = \<lparr>position = Position 3 0, symbol = CHR ''*'', color = 12,
                                     foodValue = 10\<rparr>" "k = 3"
    by simp_all
  with r show ?thesis by auto
qed

text \<open>The same for a body of fewer cells than the board has.\<close>

lemma generateFood_returns_if_fewer:
  assumes "fair rnd w h" and "0 < w" and "0 < h" and "int (card (set snakeBody)) < w * h"
  shows "\<exists>r. generateFood rnd w h snakeBody (f, n) = Some (Inr r)"
proof -
  from free_cell_if_fewer [OF assms(2,3,4)] fair_offers_free_cell [OF assms(1)]
  have "\<exists>k. draw rnd w h (n + 2 * k) \<notin> set snakeBody" by blast
  from generateFood_returns [OF assms(2,3) this] obtain r where
    r: "generateFood rnd w h snakeBody (f, n) = Some r" by blast
  from generateFood_Some [OF r assms(2,3)] r show ?thesis by auto
qed

text \<open>
  For any generator whatever, \<^verbatim>\<open>generateFood\<close> returns exactly when the sequence, read
  two calls at a time from the call on, at some point picks a cell off the body; when it
  never does, and so whenever the body covers the board, the loop runs forever.
\<close>

lemma generateFood_returns_iff:
  assumes "0 < w" and "0 < h"
  shows "((\<exists>r. generateFood rnd w h snakeBody (f, n) = Some r) \<longleftrightarrow>
            (\<exists>k. draw rnd w h (n + 2 * k) \<notin> set snakeBody)) \<and>
         ((\<forall>k. draw rnd w h (n + 2 * k) \<in> set snakeBody) \<longrightarrow>
            generateFood rnd w h snakeBody (f, n) = None) \<and>
         ((\<forall>p. isValidPosition \<lparr>width = w, height = h\<rparr> p \<longrightarrow> p \<in> set snakeBody) \<longrightarrow>
            generateFood rnd w h snakeBody (f, n) = None)"
proof (intro conjI impI)
  show "(\<exists>r. generateFood rnd w h snakeBody (f, n) = Some r) \<longleftrightarrow>
          (\<exists>k. draw rnd w h (n + 2 * k) \<notin> set snakeBody)"
  proof
    assume "\<exists>r. generateFood rnd w h snakeBody (f, n) = Some r"
    then obtain r where "generateFood rnd w h snakeBody (f, n) = Some r" ..
    from generateFood_Some [OF this assms] show "\<exists>k. draw rnd w h (n + 2 * k) \<notin> set snakeBody"
      by metis
  next
    assume "\<exists>k. draw rnd w h (n + 2 * k) \<notin> set snakeBody"
    with assms show "\<exists>r. generateFood rnd w h snakeBody (f, n) = Some r"
      by (rule generateFood_returns)
  qed
next
  assume "\<forall>k. draw rnd w h (n + 2 * k) \<in> set snakeBody"
  with assms show "generateFood rnd w h snakeBody (f, n) = None"
    by (rule generateFood_None)
next
  assume full: "\<forall>p. isValidPosition \<lparr>width = w, height = h\<rparr> p \<longrightarrow> p \<in> set snakeBody"
  have "\<forall>k. draw rnd w h (n + 2 * k) \<in> set snakeBody"
    using full draw_valid [OF assms] by blast
  with assms show "generateFood rnd w h snakeBody (f, n) = None"
    by (rule generateFood_None)
qed

lemma generateFood_returns_iff_example:
  "(\<exists>r. generateFood rnd_count 30 20 [Position 5 12, Position 4 12] (Food_ctor, 0) = Some r) \<and>
   generateFood rnd_zero 30 20 [Position 0 0] (Food_ctor, 0) = None \<and>
   generateFood rnd_count 1 1 [Position 0 0] (Food_ctor, 0) = None"
proof -
  have "draw rnd_count 30 20 (0 + 2 * 1) \<notin> set [Position 5 12, Position 4 12]"
    by (simp add: draw_def rnd_count_def)
  then have a: "\<exists>k. draw rnd_count 30 20 (0 + 2 * k) \<notin> set [Position 5 12, Position 4 12]" ..
  have b: "\<forall>k. draw rnd_zero 30 20 (0 + 2 * k) \<in> set [Position 0 0]"
    by (simp add: rnd_zero_draw)
  have c: "\<forall>p. isValidPosition \<lparr>width = 1, height = 1\<rparr> p \<longrightarrow> p \<in> set [Position 0 0]"
  proof (intro allI impI)
    fix p assume "isValidPosition \<lparr>width = 1, height = 1\<rparr> p"
    then show "p \<in> set [Position 0 0]"
      by (cases p) (simp add: isValidPosition_def)
  qed
  from a b c show ?thesis
    using generateFood_returns_iff [of 30 20 rnd_count "[Position 5 12, Position 4 12]" Food_ctor 0]
      generateFood_returns_iff [of 30 20 rnd_zero "[Position 0 0]" Food_ctor 0]
      generateFood_returns_iff [of 1 1 rnd_count "[Position 0 0]" Food_ctor 0]
    by simp
qed

text \<open>
  Fairness is needed. The generator that always returns 0 is not fair: the first food is
  at (0,0); the snake walks there, three cells long on a board of 600, and the tick in
  which it eats never returns.
\<close>

lemma generateFood_diverges_in_game:
  "reachable rnd_zero scenario_corner \<and>
   \<not> gameOver scenario_corner \<and> \<not> paused scenario_corner \<and>
   move (snake scenario_corner) =
     Inr \<lparr>body = [Position 0 0, Position 1 0, Position 2 0],
          previousBody = [Position 1 0, Position 2 0, Position 3 0],
          direction = LEFT, growing = False\<rparr> \<and>
   position (food scenario_corner) = Position 0 0 \<and>
   int (length [Position 0 0, Position 1 0, Position 2 0]) <
     width (board scenario_corner) * height (board scenario_corner) \<and>
   generateFood rnd_zero (width (board scenario_corner)) (height (board scenario_corner))
     [Position 0 0, Position 1 0, Position 2 0]
     (food scenario_corner, randCalls scenario_corner) = None \<and>
   update rnd_zero scenario_corner = None"
proof -
  let ?s = "\<lparr>body = [Position 0 0, Position 1 0, Position 2 0],
             previousBody = [Position 1 0, Position 2 0, Position 3 0],
             direction = LEFT, growing = False\<rparr>"
  note st = scenario_corner_state
  have gf: "generateFood rnd_zero 30 20 [Position 0 0, Position 1 0, Position 2 0]
              (food scenario_corner, randCalls scenario_corner) = None"
    by (rule generateFood_None) (simp_all add: rnd_zero_draw)
  have h: "getHead ?s = position (food scenario_corner)"
    by (simp add: getHead_def st)
  have v: "isValidPosition (board scenario_corner) (getHead ?s)"
    by (simp add: getHead_def st isValidPosition_def)
  have c: "\<not> checkSelfCollision ?s"
    by (simp add: checkSelfCollision_iff)
  from update_eat [OF st(1,2,5) v c h, of rnd_zero] gf
  have "update rnd_zero scenario_corner = None"
    by (simp add: st)
  with gf scenario_corner_reachable st show ?thesis
    by simp
qed

section \<open>Direction after the first key\<close>

lemma setDirection_keeps_moving:
  "direction s \<noteq> STOP \<Longrightarrow> d \<noteq> STOP \<Longrightarrow> direction (setDirection d s) \<noteq> STOP"
  by (simp add: setDirection_def)

lemma run_calls_keeps_moving:
  assumes "direction s \<noteq> STOP" and "body s \<noteq> []"
    and "\<forall>c\<in>set cs. c \<noteq> Call_setDirection STOP"
  shows "\<exists>s'. run_calls cs s = Inr s' \<and> direction s' \<noteq> STOP \<and> body s' \<noteq> []"
  using assms
proof (induction cs arbitrary: s)
  case Nil
  then show ?case by simp
next
  case (Cons c cs)
  show ?case
  proof (cases c)
    case (Call_setDirection d)
    with Cons.prems have "d \<noteq> STOP" by auto
    with Cons.prems have "direction (setDirection d s) \<noteq> STOP" "body (setDirection d s) \<noteq> []"
      by (simp_all add: setDirection_keeps_moving)
    with Cons.IH [of "setDirection d s"] Cons.prems(3) Call_setDirection show ?thesis
      by simp
  next
    case Call_move
    from Cons.prems(2) show ?thesis
    proof (cases rule: move_cases)
      case stop
      with Cons.prems show ?thesis by simp
    next
      case (step h' s')
      with Cons.prems have "direction s' \<noteq> STOP" "body s' \<noteq> []" by simp_all
      with Cons.IH [of s'] Cons.prems(3) Call_move step(2) show ?thesis
        by simp
    qed
  qed
qed

lemma processInput_keeps_moving:
  "direction (snake g) \<noteq> STOP \<Longrightarrow> direction (snake (processInput key key2 g)) \<noteq> STOP"
  by (simp add: processInput_def Let_def setDirection_keeps_moving split: option.splits)

lemma update_keeps_moving:
  assumes "update rnd g = Some (Inr g')" and "direction (snake g) \<noteq> STOP"
  shows "direction (snake g') \<noteq> STOP"
proof (cases "gameOver g \<or> paused g")
  case True
  with assms show ?thesis by (simp add: update_idle)
next
  case False
  show ?thesis
  proof (cases "body (snake g) = []")
    case True
    with assms(2) have "move (snake g) = Inl VectorIndexOutOfRange" by (simp add: move_Nil)
    with False assms(1) show ?thesis by (simp add: update_move_error)
  next
    case ne: False
    then show ?thesis
    proof (cases rule: move_cases)
      case stop
      with assms show ?thesis by simp
    next
      case (step h' s')
      with assms False show ?thesis
        by (auto simp add: update_def Let_def grow_def
                 split: if_splits option.splits sum.splits prod.splits)
    qed
  qed
qed

text \<open>
  Claim C8, as amended. Once the snake has a direction other than \<open>STOP\<close>, it keeps one
  through every sequence of \<^verbatim>\<open>move\<close> calls and of \<^verbatim>\<open>setDirection\<close> calls that ask for
  one of the four directions, hence through every \<^verbatim>\<open>processInput\<close> and \<^verbatim>\<open>update\<close> of
  the game. \<^verbatim>\<open>setDirection(STOP)\<close> itself is accepted from every direction.
\<close>

theorem direction_stays_set:
  "(direction s \<noteq> STOP \<and> body s \<noteq> [] \<and> (\<forall>c\<in>set cs. c \<noteq> Call_setDirection STOP) \<longrightarrow>
      (\<exists>s'. run_calls cs s = Inr s' \<and> direction s' \<noteq> STOP)) \<and>
   (direction (snake g) \<noteq> STOP \<longrightarrow> direction (snake (processInput key key2 g)) \<noteq> STOP) \<and>
   (direction (snake g) \<noteq> STOP \<and> update rnd g = Some (Inr g') \<longrightarrow>
      direction (snake g') \<noteq> STOP) \<and>
   setDirection STOP s = s\<lparr>direction := STOP\<rparr>"
proof (intro conjI impI)
  assume "direction s \<noteq> STOP \<and> body s \<noteq> [] \<and> (\<forall>c\<in>set cs. c \<noteq> Call_setDirection STOP)"
  then have "\<exists>s'. run_calls cs s = Inr s' \<and> direction s' \<noteq> STOP \<and> body s' \<noteq> []"
    by (intro run_calls_keeps_moving) simp_all
  then show "\<exists>s'. run_calls cs s = Inr s' \<and> direction s' \<noteq> STOP" by blast
next
  assume "direction (snake g) \<noteq> STOP"
  then show "direction (snake (processInput key key2 g)) \<noteq> STOP"
    by (rule processInput_keeps_moving)
next
  assume "direction (snake g) \<noteq> STOP \<and> update rnd g = Some (Inr g')"
  then show "direction (snake g') \<noteq> STOP"
    using update_keeps_moving by blast
next
  show "setDirection STOP s = s\<lparr>direction := STOP\<rparr>"
    by (cases "direction s") (simp_all add: setDirection_def)
qed

lemma scenario_calls:
  "run_calls [Call_setDirection DOWN, Call_move, Call_setDirection LEFT, Call_move]
     (Snake_ctor\<lparr>direction := UP\<rparr>) =
   Inr \<lparr>body = [Position 9 9, Position 10 9, Position 10 10],
        previousBody = [Position 10 9, Position 10 10, Position 9 10],
        direction = LEFT, growing = False\<rparr>"
  by code_simp

theorem direction_stays_set_witness:
  "(\<exists>s'. run_calls [Call_setDirection DOWN, Call_move, Call_setDirection LEFT, Call_move]
           (Snake_ctor\<lparr>direction := UP\<rparr>) = Inr s' \<and> direction s' \<noteq> STOP) \<and>
   direction (snake scenario_run) = RIGHT \<and>
   direction (snake (processInput (Some 97) 0 scenario_run)) \<noteq> STOP \<and>
   (\<exists>g'. update rnd_scenario scenario_run = Some (Inr g') \<and> direction (snake g') \<noteq> STOP)"
proof -
  let ?g1 = "\<lparr>snake = \<lparr>body = [Position 11 10, Position 10 10, Position 9 10],
                         previousBody = [Position 10 10, Position 9 10, Position 8 10],
                         direction = RIGHT, growing = True\<rparr>,
                food = \<lparr>position = Position 11 9, symbol = CHR ''*'', color = 12,
                        foodValue = 10\<rparr>,
                board = \<lparr>width = 30, height = 20\<rparr>, score = 10, highScore = 0,
                gameOver = False, gameRunning = True, paused = False,
                gameSpeed = 185, currentLevel = ''Level 1'',
                oldFoodPos = Position 11 10, foodEaten = True, randCalls = 6\<rparr>"
  have d: "direction (snake scenario_run) = RIGHT"
    by (simp add: scenario_run_eq fixture_game_def)
  have s: "direction (Snake_ctor\<lparr>direction := UP\<rparr>) \<noteq> STOP"
    "body (Snake_ctor\<lparr>direction := UP\<rparr>) \<noteq> []"
    by (simp_all add: Snake_ctor_body)
  from direction_stays_set [of "Snake_ctor\<lparr>direction := UP\<rparr>"
      "[Call_setDirection DOWN, Call_move, Call_setDirection LEFT, Call_move]"
      scenario_run "Some 97" 0 rnd_scenario ?g1]
    d s scenario_update
  show ?thesis
    by simp
qed

text \<open>The claim as stated fails on a call that asks for \<open>STOP\<close>.\<close>

theorem setDirection_STOP_counterexample:
  "direction (Snake_ctor\<lparr>direction := UP\<rparr>) \<noteq> STOP \<and>
   run_calls [Call_setDirection STOP] (Snake_ctor\<lparr>direction := UP\<rparr>) =
     Inr (Snake_ctor\<lparr>direction := STOP\<rparr>) \<and>
   direction (Snake_ctor\<lparr>direction := STOP\<rparr>) = STOP"
  by (simp add: setDirection_def)

section \<open>The two source files agree\<close>

lemma generateFood_loop_xp_le:
  assumes "generateFood_loop_xp rnd w h snakeBody n = Some y"
  shows "generateFood_loop rnd w h snakeBody n = Some y"
  using assms
proof (induct rnd w h snakeBody n y rule: generateFood_loop_xp.raw_induct)
  case (1 loop rnd w h snakeBody n y)
  show ?case
  proof (cases "w = 0 \<or> h = 0")
    case True
    with 1(2) show ?thesis
      by (subst generateFood_loop.simps) (auto split: if_splits)
  next
    case False
    show ?thesis
    proof (cases "Position (int (rnd n) smod w) (int (rnd (n + 1)) smod h) \<in> set snakeBody")
      case t: True
      with False 1(2) have l: "loop rnd w h snakeBody (n + 2) = Some y"
        by simp
      have "generateFood_loop_xp rnd w h snakeBody n = generateFood_loop_xp rnd w h snakeBody (n + 2)"
        using False t by (subst generateFood_loop_xp.simps) simp
      with 1(3) have "generateFood_loop_xp rnd w h snakeBody (n + 2) = Some y"
        by simp
      from 1(1) [OF l this] have "generateFood_loop rnd w h snakeBody (n + 2) = Some y" .
      with False t show ?thesis
        by (subst generateFood_loop.simps) simp
    next
      case f: False
      with False 1(2) show ?thesis
        by (subst generateFood_loop.simps) simp
    qed
  qed
qed (rule assms)

lemma generateFood_loop_le_xp:
  assumes "generateFood_loop rnd w h snakeBody n = Some y"
  shows "generateFood_loop_xp rnd w h snakeBody n = Some y"
  using assms
proof (induct rnd w h snakeBody n y rule: generateFood_loop.raw_induct)
  case (1 loop rnd w h snakeBody n y)
  show ?case
  proof (cases "w = 0 \<or> h = 0")
    case True
    with 1(2) show ?thesis
      by (subst generateFood_loop_xp.simps) (auto split: if_splits)
  next
    case False
    show ?thesis
    proof (cases "Position (int (rnd n) smod w) (int (rnd (n + 1)) smod h) \<in> set snakeBody")
      case t: True
      with False 1(2) have l: "loop rnd w h snakeBody (n + 2) = Some y"
        by simp
      have "generateFood_loop rnd w h snakeBody n = generateFood_loop rnd w h snakeBody (n + 2)"
        using False t by (subst generateFood_loop.simps) simp
      with 1(3) have "generateFood_loop rnd w h snakeBody (n + 2) = Some y"
        by simp
      from 1(1) [OF l this] have "generateFood_loop_xp rnd w h snakeBody (n + 2) = Some y" .
      with False t show ?thesis
        by (subst generateFood_loop_xp.simps) simp
    next
      case f: False
      with False 1(2) show ?thesis
        by (subst generateFood_loop_xp.simps) simp
    qed
  qed
qed (rule assms)

lemma generateFood_loop_xp_eq:
  "generateFood_loop_xp rnd w h snakeBody n = generateFood_loop rnd w h snakeBody n"
proof (cases "generateFood_loop_xp rnd w h snakeBody n")
  case None
  show ?thesis
  proof (cases "generateFood_loop rnd w h snakeBody n")
    case n: None
    with None show ?thesis by simp
  next
    case (Some y)
    from generateFood_loop_le_xp [OF Some] None show ?thesis by simp
  qed
next
  case (Some y)
  from generateFood_loop_xp_le [OF Some] Some show ?thesis by simp
qed

lemma checkSelfCollision_loop_xp_eq:
  "checkSelfCollision_loop_xp head b i = checkSelfCollision_loop head b i"
proof (induction head b i rule: checkSelfCollision_loop.induct)
  case (1 head b i)
  then show ?case
    by (subst checkSelfCollision_loop_xp.simps, subst checkSelfCollision_loop.simps) simp
qed

lemma setDirection_xp_eq: "setDirection_xp = setDirection"
  by (simp add: fun_eq_iff setDirection_xp_def setDirection_def)

lemma move_xp_eq: "move_xp = move"
proof (intro ext)
  fix s show "move_xp s = move s"
    by (cases "direction s") (simp_all add: move_xp_def move_def Let_def split: list.splits)
qed

lemma checkSelfCollision_xp_eq: "checkSelfCollision_xp = checkSelfCollision"
  by (simp add: fun_eq_iff checkSelfCollision_xp_def checkSelfCollision_def
        checkSelfCollision_loop_xp_eq)

lemma reset_xp_eq: "reset_xp = reset"
  by (simp add: fun_eq_iff reset_xp_def reset_def emplace_back_def push_back_def)

lemma generateFood_xp_eq: "generateFood_xp = generateFood"
  by (simp add: fun_eq_iff generateFood_xp_def generateFood_def generateFood_loop_xp_eq)

lemma isValidPosition_xp_eq: "isValidPosition_xp = isValidPosition"
  by (simp add: fun_eq_iff isValidPosition_xp_def isValidPosition_def)

lemma updateGameSpeed_xp_eq: "updateGameSpeed_xp = updateGameSpeed"
  by (simp add: fun_eq_iff updateGameSpeed_xp_def updateGameSpeed_def)

lemma update_xp_eq: "update_xp = update"
proof (intro ext)
  fix rnd g
  have "getHead_xp = getHead" "grow_xp = grow" "getBody_xp = getBody"
    "getPosition_xp = getPosition" "getValue_xp = getValue"
    by (simp_all add: fun_eq_iff getHead_xp_def getHead_def grow_xp_def grow_def
          getBody_xp_def getBody_def getPosition_xp_def getPosition_def
          getValue_xp_def getValue_def)
  then show "update_xp rnd g = update rnd g"
    unfolding update_xp_def update_def
    by (simp only: move_xp_eq updateGameSpeed_xp_eq isValidPosition_xp_eq
          checkSelfCollision_xp_eq generateFood_xp_eq)
qed

text \<open>
  Claim C10. The functions of the simulation core in the cross-platform file are equal, as
  functions of all their inputs (the generator's sequence among them), to the functions of
  the same names in \<^verbatim>\<open>snakeCycle.cpp\<close>.
\<close>

theorem variants_equivalent:
  "setDirection_xp = setDirection \<and> move_xp = move \<and>
   checkSelfCollision_xp = checkSelfCollision \<and> reset_xp = reset \<and>
   generateFood_xp = generateFood \<and> isValidPosition_xp = isValidPosition \<and>
   updateGameSpeed_xp = updateGameSpeed \<and> update_xp = update"
  by (simp only: setDirection_xp_eq move_xp_eq checkSelfCollision_xp_eq reset_xp_eq
        generateFood_xp_eq isValidPosition_xp_eq updateGameSpeed_xp_eq update_xp_eq simp_thms)

theorem variants_equivalent_witness:
  "setDirection_xp DOWN (Snake_ctor\<lparr>direction := UP\<rparr>) = Snake_ctor\<lparr>direction := UP\<rparr> \<and>
   move_xp (Snake_ctor\<lparr>direction := RIGHT\<rparr>) = move (Snake_ctor\<lparr>direction := RIGHT\<rparr>) \<and>
   update_xp rnd_scenario scenario_run = update rnd_scenario scenario_run"
  using variants_equivalent by (simp add: setDirection_def)

end
